theory Spec2Isabelle
  imports Complex_Main "HOL-Library.Word" "HOL-Library.Sublist"
begin

section \<open>Go values the two source files work with\<close>

type_synonym byte = "8 word"

text \<open>
  A Go \<^verbatim>\<open>error\<close> value. \<open>EOF\<close> is the sentinel \<^verbatim>\<open>io.EOF\<close>; \<open>OSError m\<close> is an
  error made outside the two source files (operating system, device driver, download
  helper) whose message is \<open>m\<close>; \<open>Errorf f a\<close> is \<^verbatim>\<open>fmt.Errorf(f + "%v", a)\<close>, the only
  way the source files make errors of their own: \<open>f\<close> is the literal text of the format
  before its verb, \<open>a\<close> the formatted argument (empty when the format has no verb).
\<close>

datatype error = EOF | OSError string | Errorf string string

fun Error :: "error \<Rightarrow> string" where
  "Error EOF = ''EOF''"
| "Error (OSError m) = m"
| "Error (Errorf f a) = f @ a"

text \<open>
  A value of Go's \<^verbatim>\<open>any\<close> in an argument bag: JSON-like data. \<open>Nil\<close> is the nil
  interface, which is also what a map lookup of a missing key yields. A number arrives
  as a \<^verbatim>\<open>float64\<close>; the functions modelled here never look inside one, only at its not
  being a string, a boolean or a mapping, so it is carried as a real.
\<close>

datatype any = Nil | String string | Bool bool | Float64 real | Map "string \<Rightarrow> any option"

section \<open>Standard library functions used by the content sniffer\<close>

text \<open>\<^verbatim>\<open>strings.Contains(s, substr)\<close>: \<open>substr\<close> occurs in \<open>s\<close> as a contiguous run.\<close>

definition strings_Contains :: "string \<Rightarrow> string \<Rightarrow> bool" where
  "strings_Contains s substr = sublist substr s"

text \<open>\<^verbatim>\<open>strings.Join(elems, sep)\<close>.\<close>

fun strings_Join :: "string list \<Rightarrow> string \<Rightarrow> string" where
  "strings_Join [] sep = []"
| "strings_Join [e] sep = e"
| "strings_Join (e # es) sep = e @ sep @ strings_Join es sep"

text \<open>
  Package \<^verbatim>\<open>path/filepath\<close> on a Unix system: the separator is \<open>/\<close> and there are no
  volume names.
\<close>

definition IsPathSeparator :: "char \<Rightarrow> bool" where
  "IsPathSeparator c = (c = CHR ''/'')"

text \<open>
  The loop of \<^verbatim>\<open>filepath.Clean\<close>. \<open>rest\<close> is the unread part of the path (the source's
  \<^verbatim>\<open>path[r:]\<close>), \<open>out\<close> the bytes written so far (\<^verbatim>\<open>out.w\<close> is its length), \<open>dotdot\<close> the
  index below which a \<^verbatim>\<open>..\<close> element must not backtrack. One equation per case of the
  source's \<^verbatim>\<open>switch\<close>, in its order: an empty element, a \<^verbatim>\<open>.\<close> element, a \<^verbatim>\<open>..\<close>
  element, a real element.
\<close>

text \<open>
  Backtracking over the last element written: \<^verbatim>\<open>out.w--\<close>, then \<^verbatim>\<open>out.w--\<close> again while
  \<^verbatim>\<open>out.w > dotdot\<close> and the byte at index \<^verbatim>\<open>out.w\<close> is not a separator.
\<close>

definition backtrack :: "string \<Rightarrow> nat \<Rightarrow> string" where
  "backtrack out dotdot =
     (let back = takeWhile (\<lambda>c. \<not> IsPathSeparator c) (rev (drop (dotdot + 1) out))
      in take (length out - 1 - length back) out)"

function clean_loop :: "bool \<Rightarrow> string \<Rightarrow> string \<Rightarrow> nat \<Rightarrow> string" where
  "clean_loop rooted [] out dotdot = out"
| "clean_loop rooted (c # cs) out dotdot =
     (if IsPathSeparator c then clean_loop rooted cs out dotdot
      else if c = CHR ''.'' \<and> (cs = [] \<or> IsPathSeparator (hd cs)) then
        clean_loop rooted cs out dotdot
      else if c = CHR ''.'' \<and> cs \<noteq> [] \<and> hd cs = CHR ''.'' \<and>
              (tl cs = [] \<or> IsPathSeparator (hd (tl cs))) then
        (if length out > dotdot then clean_loop rooted (tl cs) (backtrack out dotdot) dotdot
         else if \<not> rooted then
           (let out' = (if length out > 0 then out @ ''/'' else out) @ ''..''
            in clean_loop rooted (tl cs) out' (length out'))
         else clean_loop rooted (tl cs) out dotdot)
      else
        (let out' = (if (rooted \<and> length out \<noteq> 1) \<or> (\<not> rooted \<and> length out \<noteq> 0)
                     then out @ ''/'' else out)
         in clean_loop rooted (dropWhile (\<lambda>c. \<not> IsPathSeparator c) (c # cs))
              (out' @ takeWhile (\<lambda>c. \<not> IsPathSeparator c) (c # cs)) dotdot))"
  by pat_completeness auto
termination
proof (relation "measure (\<lambda>(rooted, rest, out, dotdot). length rest)")
  show "wf (measure (\<lambda>(rooted, rest, out, dotdot). length rest))"
    by simp
qed (auto simp: less_Suc_eq_le length_dropWhile_le intro: le_SucI)

definition filepath_Clean :: "string \<Rightarrow> string" where
  "filepath_Clean path =
     (if path = [] then ''.''
      else
        (let rooted = IsPathSeparator (hd path);
             out = (if rooted then clean_loop True (tl path) ''/'' 1
                    else clean_loop False path [] 0)
         in if length out = 0 then ''.'' else out))"

text \<open>\<^verbatim>\<open>filepath.Dir\<close>: everything up to and including the last separator, cleaned.\<close>

definition filepath_Dir :: "string \<Rightarrow> string" where
  "filepath_Dir path =
     filepath_Clean (rev (dropWhile (\<lambda>c. \<not> IsPathSeparator c) (rev path)))"

text \<open>
  \<^verbatim>\<open>filepath.Base\<close>: the last element of the path, trailing separators removed first;
  \<open>.\<close> for the empty path, \<open>/\<close> for a path of separators only.
\<close>

definition filepath_Base :: "string \<Rightarrow> string" where
  "filepath_Base path =
     (if path = [] then ''.''
      else
        (let stripped = rev (dropWhile IsPathSeparator (rev path));
             last_elem = rev (takeWhile (\<lambda>c. \<not> IsPathSeparator c) (rev stripped))
         in if last_elem = [] then ''/'' else last_elem))"

text \<open>\<^verbatim>\<open>filepath.Join\<close>: leading empty elements are ignored, the rest joined and cleaned.\<close>

fun filepath_Join :: "string list \<Rightarrow> string" where
  "filepath_Join [] = []"
| "filepath_Join (e # elem) =
     (if e \<noteq> [] then filepath_Clean (strings_Join (e # elem) ''/'') else filepath_Join elem)"

section \<open>The local file system and the device calls, as explicit state\<close>

text \<open>
  What a handler does to its surroundings is recorded in a \<open>world\<close>: the regular files
  of the local disk by path, and the calls made to the collaborators that live outside
  the two source files (device setup, download, the two driver methods), in order. The
  source logs through \<^verbatim>\<open>zerolog\<close> as well; log lines are not modelled.
\<close>

datatype call =
    Call_setupXTDriver
  | Call_DownloadFileByUrl string
  | Call_ClearImages
  | Call_PushImage string

record world =
  files :: "string \<rightharpoonup> byte list"
  calls :: "call list"

text \<open>
  What the surroundings answer is given by an environment. \<open>DetectContentType\<close> is
  \<^verbatim>\<open>http.DetectContentType\<close> of the standard library, taken as a parameter. The three
  faults are the I/O errors the source has a branch for: when one is \<open>Some m\<close> the
  operation fails with message \<open>m\<close>.
\<close>

record os_env =
  DetectContentType :: "byte list \<Rightarrow> string"
  read_fault :: "string option"
  seek_fault :: "string option"
  rename_fault :: "string option"

text \<open>\<^verbatim>\<open>os.Open\<close>: the file's bytes, or an error when no such file exists.\<close>

definition os_Open :: "world \<Rightarrow> string \<Rightarrow> error + byte list" where
  "os_Open w name =
     (case files w name of
        None \<Rightarrow> Inl (OSError (''open '' @ name @ '': no such file or directory''))
      | Some content \<Rightarrow> Inr content)"

text \<open>
  \<^verbatim>\<open>file.Read(buffer)\<close> on a freshly opened file: the leading bytes of the buffer are
  overwritten with the file's, the rest of the buffer keeps its value. Reading at the end
  of the file (an empty file) gives \<^verbatim>\<open>io.EOF\<close>.
\<close>

definition file_Read ::
  "'a os_env_scheme \<Rightarrow> byte list \<Rightarrow> byte list \<Rightarrow> byte list \<times> error option" where
  "file_Read env content buffer =
     (case read_fault env of
        Some m \<Rightarrow> (buffer, Some (OSError m))
      | None \<Rightarrow>
          (let n = min (length buffer) (length content)
           in (take n content @ drop n buffer, if n = 0 then Some EOF else None)))"

definition file_Seek :: "'a os_env_scheme \<Rightarrow> error option" where
  "file_Seek env = map_option OSError (seek_fault env)"

text \<open>\<^verbatim>\<open>os.Rename\<close>: the file moves to the new path, replacing what was there.\<close>

definition os_Rename ::
  "'a os_env_scheme \<Rightarrow> world \<Rightarrow> string \<Rightarrow> string \<Rightarrow> error option \<times> world" where
  "os_Rename env w oldpath newpath =
     (case rename_fault env of
        Some m \<Rightarrow> (Some (OSError m), w)
      | None \<Rightarrow>
          (case files w oldpath of
             None \<Rightarrow>
               (Some (OSError (''rename '' @ oldpath @ '' '' @ newpath @
                               '': no such file or directory'')), w)
           | Some content \<Rightarrow>
               (None, w\<lparr>files := (files w)(oldpath := None, newpath \<mapsto> content)\<rparr>)))"

text \<open>\<^verbatim>\<open>os.Remove\<close>: the file is gone afterwards.\<close>

definition os_Remove :: "world \<Rightarrow> string \<Rightarrow> error option \<times> world" where
  "os_Remove w name =
     (case files w name of
        None \<Rightarrow> (Some (OSError (''remove '' @ name @ '': no such file or directory'')), w)
      | Some content \<Rightarrow> (None, w\<lparr>files := (files w)(name := None)\<rparr>))"



section \<open>The content sniffer: \<^verbatim>\<open>DetectAndRenameImageFile\<close>\<close>

text \<open>
  The \<^verbatim>\<open>switch\<close> on the detected content type (source lines 41 to 65): the extension,
  or \<open>None\<close> where the source returns the error for a type that is no image.
\<close>

definition image_extension :: "string \<Rightarrow> string option" where
  "image_extension contentType =
     (if strings_Contains contentType ''image/jpeg'' then Some ''.jpg''
      else if strings_Contains contentType ''image/png'' then Some ''.png''
      else if strings_Contains contentType ''image/gif'' then Some ''.gif''
      else if strings_Contains contentType ''image/webp'' then Some ''.webp''
      else if strings_Contains contentType ''image/bmp'' then Some ''.bmp''
      else if strings_Contains contentType ''image/tiff'' then Some ''.tiff''
      else if strings_Contains contentType ''image/svg+xml'' then Some ''.svg''
      else if strings_Contains contentType ''image/'' then Some ''.jpg''
      else None)"

text \<open>
  The function returns a path and an error, both always present in Go; the pair is kept,
  with \<open>None\<close> for a nil error. The world comes back as the function left it.

  The second half of the function (source lines 41 to 84), from the detected content
  type on: the extension, the new path, the comparison with the old one, the rename.
\<close>

definition rename_for_content_type ::
  "'a os_env_scheme \<Rightarrow> world \<Rightarrow> string \<Rightarrow> string \<Rightarrow> (string \<times> error option) \<times> world" where
  "rename_for_content_type env w filePath contentType =
     (case image_extension contentType of
        None \<Rightarrow>
          ((filePath, Some (Errorf ''not a recognized image type: '' contentType)), w)
      | Some extension \<Rightarrow>
          (let dir = filepath_Dir filePath;
               base = filepath_Base filePath;
               newFilePath = filepath_Join [dir, base @ extension]
           in if filePath = newFilePath then ((filePath, None), w)
              else
                (case os_Rename env w filePath newFilePath of
                   (Some err, w') \<Rightarrow>
                     (('''', Some (Errorf ''failed to rename file: '' (Error err))), w')
                 | (None, w') \<Rightarrow> ((newFilePath, None), w'))))"

text \<open>
  The first half (source lines 16 to 39): open the file, read into a buffer of 512 zero
  bytes, reset the file pointer, detect the content type of the whole buffer.
\<close>

definition DetectAndRenameImageFile ::
  "'a os_env_scheme \<Rightarrow> world \<Rightarrow> string \<Rightarrow> (string \<times> error option) \<times> world" where
  "DetectAndRenameImageFile env w filePath =
     (case os_Open w filePath of
        Inl err \<Rightarrow>
          (('''', Some (Errorf ''failed to open file for type detection: '' (Error err))), w)
      | Inr file \<Rightarrow>
          (case file_Read env file (replicate 512 0) of
             (buffer, err) \<Rightarrow>
               if err \<noteq> None \<and> err \<noteq> Some EOF then
                 (('''', Some (Errorf ''failed to read file for type detection: ''
                                (Error (the err)))), w)
               else
                 (case file_Seek env of
                    Some err \<Rightarrow>
                      (('''', Some (Errorf ''failed to reset file pointer: '' (Error err))), w)
                  | None \<Rightarrow>
                      (let contentType = DetectContentType env buffer
                       in rename_for_content_type env w filePath contentType))))"

section \<open>The tool handlers\<close>

subsection \<open>Argument bags and the response envelope\<close>

text \<open>Indexing a Go map: a missing key yields the zero value, here the nil interface.\<close>

definition map_index :: "(string \<rightharpoonup> any) \<Rightarrow> string \<Rightarrow> any" where
  "map_index m k = (case m k of None \<Rightarrow> Nil | Some v \<Rightarrow> v)"

text \<open>
  The two-result type assertions \<^verbatim>\<open>v, ok := x.(T)\<close>: the value and \<open>True\<close> when \<open>x\<close> holds
  a \<open>T\<close>, the zero value of \<open>T\<close> and \<open>False\<close> otherwise.
\<close>

fun assert_string :: "any \<Rightarrow> string \<times> bool" where
  "assert_string (String s) = (s, True)"
| "assert_string _ = ('''', False)"

fun assert_bool :: "any \<Rightarrow> bool \<times> bool" where
  "assert_bool (Bool b) = (b, True)"
| "assert_bool _ = (False, False)"

fun assert_map :: "any \<Rightarrow> (string \<rightharpoonup> any) \<times> bool" where
  "assert_map (Map m) = (m, True)"
| "assert_map _ = (Map.empty, False)"

text \<open>
  Modelled from the spec: \<^verbatim>\<open>NewMCPSuccessResponse\<close> and \<^verbatim>\<open>NewMCPErrorResponse\<close> are not
  among the source files. The spec's ToolResult is a tagged variant, Success with a
  message and a structured payload (\<open>SuccessResult\<close>) or Failure with a message
  (\<open>FailureResult\<close>), exactly one populated.
\<close>

datatype 'a ToolResult = SuccessResult string 'a | FailureResult string

definition NewMCPSuccessResponse :: "string \<Rightarrow> 'a \<Rightarrow> 'a ToolResult" where
  "NewMCPSuccessResponse message returnData = SuccessResult message returnData"

definition NewMCPErrorResponse :: "string \<Rightarrow> 'a ToolResult" where
  "NewMCPErrorResponse message = FailureResult message"

text \<open>
  Modelled from the spec: \<^verbatim>\<open>option.MobileAction\<close>, \<^verbatim>\<open>mcp.CallToolRequest\<close>,
  \<^verbatim>\<open>BuildMCPCallToolRequest\<close> and the action names are not among the source files. The
  spec's ActionDescriptor has parameters (a bare string or a mapping) and custom
  key-value overrides; its ToolInvocation is a named operation with a mapping from
  argument names to untyped values; the operation is named \<^verbatim>\<open>push_image\<close>.
\<close>

record ActionOptions =
  Custom :: "string \<rightharpoonup> any"

record MobileAction =
  Params :: any
  ActionOptions :: ActionOptions

record CallToolRequest =
  Name :: string
  Arguments :: "string \<rightharpoonup> any"

definition ACTION_PushImage :: string where
  "ACTION_PushImage = ''push_image''"

definition BuildMCPCallToolRequest ::
  "string \<Rightarrow> (string \<rightharpoonup> any) \<Rightarrow> MobileAction \<Rightarrow> CallToolRequest" where
  "BuildMCPCallToolRequest toolName arguments action =
     \<lparr>Name = toolName, Arguments = arguments\<rparr>"

subsection \<open>The device layer\<close>

text \<open>
  \<^verbatim>\<open>IDriver\<close> is an interface implemented outside the source files: a driver is given by
  what its methods answer, \<open>None\<close> for a nil error.
\<close>

record IDriver =
  ClearImages :: "error option"
  PushImage :: "string \<Rightarrow> error option"

text \<open>
  The handlers' environment adds the two helpers of the repository that are not among
  the source files, as parameters: \<^verbatim>\<open>setupXTDriver\<close>, which resolves the arguments to a
  driver or fails, and the outcome of a download, an error or the path and bytes of the
  file fetched.
\<close>

record env = os_env +
  setupXTDriver :: "(string \<rightharpoonup> any) \<Rightarrow> error + IDriver"
  download :: "string \<Rightarrow> error + (string \<times> byte list)"

text \<open>
  Modelled from the spec: \<^verbatim>\<open>DownloadFileByUrl\<close> is not among the source files. By the
  spec a remote fetch either fails with a download error or leaves the downloaded
  temporary file on the local disk; the source receives its path.
\<close>

definition DownloadFileByUrl ::
  "env \<Rightarrow> world \<Rightarrow> string \<Rightarrow> (string \<times> error option) \<times> world" where
  "DownloadFileByUrl env w url =
     (let w1 = w\<lparr>calls := calls w @ [Call_DownloadFileByUrl url]\<rparr> in
      case download env url of
        Inl err \<Rightarrow> (('''', Some err), w1)
      | Inr (path, content) \<Rightarrow> ((path, None), w1\<lparr>files := (files w1)(path \<mapsto> content)\<rparr>))"

subsection \<open>\<^verbatim>\<open>push_image\<close>\<close>

record ToolPushImage =
  ImagePath :: string
  ImageUrl :: string
  Cleared :: bool

text \<open>
  The download block of the handler (source lines 266 to 284): the image path to push
  and the flag \<^verbatim>\<open>downloadedFile\<close>, or the hard error of a failed download.
\<close>

definition push_image_download ::
  "env \<Rightarrow> world \<Rightarrow> bool \<Rightarrow> string \<Rightarrow> string \<Rightarrow> (error + string \<times> bool) \<times> world" where
  "push_image_download env w hasUrl imageUrl imagePath =
     (if hasUrl \<and> imageUrl \<noteq> '''' then
        (case DownloadFileByUrl env w imageUrl of
           ((downloadedPath, Some err), w1) \<Rightarrow>
             (Inl (Errorf ''failed to download image from URL: '' (Error err)), w1)
         | ((downloadedPath, None), w1) \<Rightarrow>
             (case DetectAndRenameImageFile env w1 downloadedPath of
                ((renamedPath, Some err), w2) \<Rightarrow> (Inr (downloadedPath, True), w2)
              | ((renamedPath, None), w2) \<Rightarrow> (Inr (renamedPath, True), w2)))
      else (Inr (imagePath, False), w))"

text \<open>The pre-clear block (source lines 286 to 296): the flag \<^verbatim>\<open>cleared\<close>.\<close>

definition push_image_clear :: "IDriver \<Rightarrow> world \<Rightarrow> bool \<Rightarrow> bool \<times> world" where
  "push_image_clear driverExt w clearBefore =
     (if clearBefore then
        (let w1 = w\<lparr>calls := calls w @ [Call_ClearImages]\<rparr> in
         case ClearImages driverExt of
           Some err \<Rightarrow> (False, w1)
         | None \<Rightarrow> (True, w1))
      else (False, w))"

text \<open>
  The handler returns a result and an error, of which exactly one is nil in every
  \<^verbatim>\<open>return\<close> of the source: \<open>Inl\<close> is the hard error, \<open>Inr\<close> the response.
\<close>

definition ToolPushImage_Implement ::
  "env \<Rightarrow> world \<Rightarrow> (string \<rightharpoonup> any) \<Rightarrow> (error + ToolPushImage ToolResult) \<times> world" where
  "ToolPushImage_Implement env w arguments =
     (let w0 = w\<lparr>calls := calls w @ [Call_setupXTDriver]\<rparr> in
      case setupXTDriver env arguments of
        Inl err \<Rightarrow> (Inl err, w0)
      | Inr driverExt \<Rightarrow>
          (let (imagePath, hasPath) = assert_string (map_index arguments ''imagePath'');
               (imageUrl, hasUrl) = assert_string (map_index arguments ''imageUrl'');
               (cleanup, cleanupOk) = assert_bool (map_index arguments ''cleanup'');
               (clearBefore, clearBeforeOk) = assert_bool (map_index arguments ''clearBefore'')
           in if (\<not> hasPath \<or> imagePath = '''') \<and> (\<not> hasUrl \<or> imageUrl = '''') then
                (Inl (Errorf ''either imagePath or imageUrl is required'' ''''), w0)
              else
                (case push_image_download env w0 hasUrl imageUrl imagePath of
                   (Inl err, w1) \<Rightarrow> (Inl err, w1)
                 | (Inr (imagePath, downloadedFile), w1) \<Rightarrow>
                     (case push_image_clear driverExt w1 clearBefore of
                        (cleared, w2) \<Rightarrow>
                          (let w3 = w2\<lparr>calls := calls w2 @ [Call_PushImage imagePath]\<rparr> in
                           case PushImage driverExt imagePath of
                             Some err \<Rightarrow>
                               (Inl err,
                                if downloadedFile \<and> cleanup then snd (os_Remove w3 imagePath)
                                else w3)
                           | None \<Rightarrow>
                               (let w4 = (if downloadedFile \<and> cleanup
                                          then snd (os_Remove w3 imagePath) else w3);
                                    message = ''Successfully pushed image to device'';
                                    returnData = \<lparr>ImagePath = imagePath, ImageUrl = '''',
                                                  Cleared = cleared\<rparr>;
                                    (returnData, message) =
                                      (if hasUrl \<and> imageUrl \<noteq> '''' then
                                         (returnData\<lparr>ImageUrl := imageUrl\<rparr>,
                                          ''Successfully downloaded and pushed image from '' @
                                          imageUrl @ '' to device'')
                                       else (returnData, message));
                                    message = (if cleared
                                               then message @ '' (images cleared before pushing)''
                                               else message)
                                in (Inr (NewMCPSuccessResponse message returnData), w4)))))))"

text \<open>
  The reverse mapping of \<^verbatim>\<open>push_image\<close>: the argument bag is filled from the bare string
  parameter, then from the parameter mapping, then from the custom options, each later
  assignment overwriting an earlier one of the same key. The error returned is always nil.
\<close>

definition ToolPushImage_ConvertActionToCallToolRequest ::
  "MobileAction \<Rightarrow> CallToolRequest \<times> error option" where
  "ToolPushImage_ConvertActionToCallToolRequest action =
     (let arguments = Map.empty;
          arguments =
            (case assert_string (Params action) of
               (imageUrl, ok) \<Rightarrow>
                 if ok \<and> imageUrl \<noteq> '''' then arguments(''imageUrl'' \<mapsto> String imageUrl)
                 else arguments);
          arguments =
            (case assert_map (Params action) of
               (params, ok) \<Rightarrow>
                 if ok then
                   (let arguments =
                          (case assert_string (map_index params ''imageUrl'') of
                             (imageUrl, ok) \<Rightarrow>
                               if ok \<and> imageUrl \<noteq> ''''
                               then arguments(''imageUrl'' \<mapsto> String imageUrl)
                               else arguments);
                        arguments =
                          (case assert_string (map_index params ''imagePath'') of
                             (imagePath, ok) \<Rightarrow>
                               if ok \<and> imagePath \<noteq> ''''
                               then arguments(''imagePath'' \<mapsto> String imagePath)
                               else arguments);
                        arguments =
                          (case assert_bool (map_index params ''cleanup'') of
                             (cleanup, ok) \<Rightarrow>
                               if ok then arguments(''cleanup'' \<mapsto> Bool cleanup)
                               else arguments);
                        arguments =
                          (case assert_bool (map_index params ''clearBefore'') of
                             (clearBefore, ok) \<Rightarrow>
                               if ok then arguments(''clearBefore'' \<mapsto> Bool clearBefore)
                               else arguments)
                    in arguments)
                 else arguments);
          custom = Custom (ActionOptions action);
          arguments =
            (case assert_string (map_index custom ''imageUrl'') of
               (imageUrl, ok) \<Rightarrow>
                 if ok \<and> imageUrl \<noteq> '''' then arguments(''imageUrl'' \<mapsto> String imageUrl)
                 else arguments);
          arguments =
            (case assert_string (map_index custom ''imagePath'') of
               (imagePath, ok) \<Rightarrow>
                 if ok \<and> imagePath \<noteq> '''' then arguments(''imagePath'' \<mapsto> String imagePath)
                 else arguments);
          arguments =
            (case assert_bool (map_index custom ''cleanup'') of
               (cleanup, ok) \<Rightarrow>
                 if ok then arguments(''cleanup'' \<mapsto> Bool cleanup) else arguments);
          arguments =
            (case assert_bool (map_index custom ''clearBefore'') of
               (clearBefore, ok) \<Rightarrow>
                 if ok then arguments(''clearBefore'' \<mapsto> Bool clearBefore) else arguments)
      in (BuildMCPCallToolRequest ACTION_PushImage arguments action, None))"

subsection \<open>\<^verbatim>\<open>clear_image\<close>\<close>

record ToolClearImage =
  Success :: bool

definition ToolClearImage_Implement ::
  "env \<Rightarrow> world \<Rightarrow> (string \<rightharpoonup> any) \<Rightarrow> (error + ToolClearImage ToolResult) \<times> world" where
  "ToolClearImage_Implement env w arguments =
     (let w0 = w\<lparr>calls := calls w @ [Call_setupXTDriver]\<rparr> in
      case setupXTDriver env arguments of
        Inl err \<Rightarrow> (Inl err, w0)
      | Inr driverExt \<Rightarrow>
          (let w1 = w0\<lparr>calls := calls w0 @ [Call_ClearImages]\<rparr> in
           case ClearImages driverExt of
             Some err \<Rightarrow> (Inl err, w1)
           | None \<Rightarrow>
               (let message = ''Successfully cleared images from device'';
                    returnData = \<lparr>Success = True\<rparr>
                in (Inr (NewMCPSuccessResponse message returnData), w1))))"

subsection \<open>\<^verbatim>\<open>list_available_devices\<close>\<close>

text \<open>
  The enumeration libraries (\<^verbatim>\<open>gadb\<close>, \<^verbatim>\<open>go-ios\<close>) and \<^verbatim>\<open>NewIOSDevice\<close> are outside the
  source files; the environment gives what each call answers.
\<close>

record gadb_Device =
  Serial :: string

record gadb_Client =
  Client_DeviceList :: "error + gadb_Device list"

record DeviceProperties =
  SerialNumber :: string

record DeviceEntry =
  Entry_Properties :: DeviceProperties

record IOSDevice =
  Properties :: DeviceProperties

record device_env =
  gadb_NewClient :: "error + gadb_Client"
  ios_ListDevices :: "error + DeviceEntry list"
  NewIOSDevice :: "string \<Rightarrow> error + IOSDevice"
  ios_Pair :: "DeviceEntry \<Rightarrow> error option"

record ToolListAvailableDevices =
  AndroidDevices :: "string list"
  IosDevices :: "string list"
  TotalCount :: int
  AndroidCount :: int
  IosCount :: int

text \<open>The verb \<^verbatim>\<open>%d\<close> of \<^verbatim>\<open>fmt.Sprintf\<close>: an integer in decimal.\<close>

fun fmt_nat :: "nat \<Rightarrow> string" where
  "fmt_nat n =
     (if n < 10 then [''0123456789'' ! n]
      else fmt_nat (n div 10) @ [''0123456789'' ! (n mod 10)])"

declare fmt_nat.simps [simp del]

definition fmt_d :: "int \<Rightarrow> string" where
  "fmt_d i = (if i < 0 then ''-'' @ fmt_nat (nat (- i)) else fmt_nat (nat i))"

text \<open>The loop over the Android devices (source lines 45 to 47).\<close>

fun android_serials :: "gadb_Device list \<Rightarrow> string list \<Rightarrow> string list" where
  "android_serials [] serialList = serialList"
| "android_serials (device # devices) serialList =
     android_serials devices (serialList @ [Serial device])"

text \<open>
  The loop over the iOS devices (source lines 53 to 66): a device whose driver cannot be
  made, or that does not pair, is skipped.
\<close>

fun ios_serials :: "device_env \<Rightarrow> DeviceEntry list \<Rightarrow> string list \<Rightarrow> string list" where
  "ios_serials env [] serialList = serialList"
| "ios_serials env (dev # devs) serialList =
     (case NewIOSDevice env (SerialNumber (Entry_Properties dev)) of
        Inl err \<Rightarrow> ios_serials env devs serialList
      | Inr device \<Rightarrow>
          (let properties = Properties device in
           case ios_Pair env dev of
             Some err \<Rightarrow> ios_serials env devs serialList
           | None \<Rightarrow> ios_serials env devs (serialList @ [SerialNumber properties])))"

text \<open>
  \<^verbatim>\<open>deviceList\<close> is a map from a key to a slice of strings; indexing a missing key gives
  the nil slice, of length 0. Go's \<^verbatim>\<open>int\<close> is 64 bits wide; a slice of strings has far
  fewer than \<open>2 ^ 62\<close> elements, so the sum of two lengths does not wrap.
\<close>

definition slice_index :: "(string \<rightharpoonup> string list) \<Rightarrow> string \<Rightarrow> string list" where
  "slice_index m k = (case m k of None \<Rightarrow> [] | Some v \<Rightarrow> v)"

definition len :: "'a list \<Rightarrow> int" where
  "len xs = int (length xs)"

definition ToolListAvailableDevices_Implement ::
  "device_env \<Rightarrow> (string \<rightharpoonup> any) \<Rightarrow> error + ToolListAvailableDevices ToolResult" where
  "ToolListAvailableDevices_Implement env arguments =
     (let deviceList = Map.empty;
          deviceList =
            (case gadb_NewClient env of
               Inl err \<Rightarrow> deviceList
             | Inr client \<Rightarrow>
                 (case Client_DeviceList client of
                    Inl err \<Rightarrow> deviceList
                  | Inr androidDevices \<Rightarrow>
                      deviceList(''androidDevices'' \<mapsto> android_serials androidDevices [])));
          deviceList =
            (case ios_ListDevices env of
               Inl err \<Rightarrow> deviceList
             | Inr iosDevices \<Rightarrow>
                 deviceList(''iosDevices'' \<mapsto> ios_serials env iosDevices []));
          totalDevices = len (slice_index deviceList ''androidDevices'') +
                         len (slice_index deviceList ''iosDevices'');
          message = ''Found '' @ fmt_d totalDevices @ '' available devices ('' @
                    fmt_d (len (slice_index deviceList ''androidDevices'')) @ '' Android, '' @
                    fmt_d (len (slice_index deviceList ''iosDevices'')) @ '' iOS)'';
          returnData = \<lparr>AndroidDevices = slice_index deviceList ''androidDevices'',
                        IosDevices = slice_index deviceList ''iosDevices'',
                        TotalCount = totalDevices,
                        AndroidCount = len (slice_index deviceList ''androidDevices''),
                        IosCount = len (slice_index deviceList ''iosDevices'')\<rparr>
      in Inr (NewMCPSuccessResponse message returnData))"

subsection \<open>The precedence of the reverse mapping, as the spec words it\<close>

text \<open>
  Stated from the spec, for comparison with the handler above: custom overrides come
  before the nested mapping, which comes before the bare scalar, and all sources
  contribute to one argument set. A value counts for a string field when it is a
  non-empty string and for a boolean field when it is a boolean; the first source, in
  this order, that has such a value for a field gives the field, and a field no source
  gives is absent. The bare scalar stands for \<^verbatim>\<open>imageUrl\<close> only.
\<close>

definition recognised_string :: "any \<Rightarrow> any option" where
  "recognised_string v =
     (case v of String s \<Rightarrow> if s \<noteq> '''' then Some (String s) else None | _ \<Rightarrow> None)"

definition recognised_bool :: "any \<Rightarrow> any option" where
  "recognised_bool v = (case v of Bool b \<Rightarrow> Some (Bool b) | _ \<Rightarrow> None)"

fun first_recognised :: "any option list \<Rightarrow> any option" where
  "first_recognised [] = None"
| "first_recognised (Some v # vs) = Some v"
| "first_recognised (None # vs) = first_recognised vs"

definition nested_mapping :: "MobileAction \<Rightarrow> (string \<rightharpoonup> any)" where
  "nested_mapping action = (case Params action of Map m \<Rightarrow> m | _ \<Rightarrow> Map.empty)"

definition precedence_arguments :: "MobileAction \<Rightarrow> (string \<rightharpoonup> any)" where
  "precedence_arguments action key =
     (let custom = map_index (Custom (ActionOptions action)) key;
          nested = map_index (nested_mapping action) key;
          bare = Params action
      in if key = ''imageUrl'' then
           first_recognised [recognised_string custom, recognised_string nested,
                             recognised_string bare]
         else if key = ''imagePath'' then
           first_recognised [recognised_string custom, recognised_string nested]
         else if key = ''cleanup'' \<or> key = ''clearBefore'' then
           first_recognised [recognised_bool custom, recognised_bool nested]
         else None)"

section \<open>Properties of the content sniffer\<close>

text \<open>
  With no read fault the buffer holds the first 512 bytes of the file, padded with the
  zero bytes it was made with, and the only error a read can give is \<^verbatim>\<open>io.EOF\<close>, for
  the empty file.
\<close>

lemma file_Read_ok:
  "read_fault env = None \<Longrightarrow>
   file_Read env content (replicate 512 0) =
     (take 512 content @ replicate (512 - length content) 0,
      if content = [] then Some EOF else None)"
  by (auto simp: file_Read_def Let_def min_def)

lemma contains_image_prefix:
  "strings_Contains ct (''image/'' @ rest) \<Longrightarrow> strings_Contains ct ''image/''"
  unfolding strings_Contains_def
  by (meson sublist_appendI sublist_order.order_trans prefix_imp_sublist prefixI)

lemma image_extension_None:
  "\<not> strings_Contains ct ''image/'' \<Longrightarrow> image_extension ct = None"
  using contains_image_prefix[of ct "''jpeg''"] contains_image_prefix[of ct "''png''"]
    contains_image_prefix[of ct "''gif''"] contains_image_prefix[of ct "''webp''"]
    contains_image_prefix[of ct "''bmp''"] contains_image_prefix[of ct "''tiff''"]
    contains_image_prefix[of ct "''svg+xml''"]
  by (auto simp: image_extension_def)

lemma DetectAndRenameImageFile_sniffed:
  assumes "files w filePath = Some content"
    and "read_fault env = None" and "seek_fault env = None"
  shows "DetectAndRenameImageFile env w filePath =
           rename_for_content_type env w filePath
             (DetectContentType env (take 512 content @ replicate (512 - length content) 0))"
  using assms
  by (simp add: DetectAndRenameImageFile_def os_Open_def file_Read_ok file_Seek_def)

lemma contains_eval:
  "strings_Contains ''application/octet-stream'' ''image/'' = False"
  "strings_Contains ''text/plain; charset=utf-8'' ''image/'' = False"
  unfolding strings_Contains_def by code_simp+

text \<open>
  Claim C5. A file whose content was sniffed (it opens, the read and the seek do not
  fail) and whose detected content type does not contain \<^verbatim>\<open>image/\<close>: the function
  returns the path it was given together with the error \<^verbatim>\<open>not a recognized image type\<close>
  (the spec's NotAnImage), and the world is the one it started from, so no file was
  renamed or otherwise touched.
\<close>

theorem C5_not_an_image:
  assumes "files w filePath = Some content"
    and "read_fault env = None" and "seek_fault env = None"
    and "\<not> strings_Contains
            (DetectContentType env (take 512 content @ replicate (512 - length content) 0))
            ''image/''"
  shows "DetectAndRenameImageFile env w filePath =
           ((filePath,
             Some (Errorf ''not a recognized image type: ''
                    (DetectContentType env
                       (take 512 content @ replicate (512 - length content) 0)))), w)"
  using assms
  by (simp add: DetectAndRenameImageFile_sniffed rename_for_content_type_def
      image_extension_None)

theorem C5_not_an_image_witness:
  "DetectAndRenameImageFile
     \<lparr>DetectContentType = (\<lambda>buffer. ''text/plain; charset=utf-8''), read_fault = None,
      seek_fault = None, rename_fault = None\<rparr>
     \<lparr>files = [''/tmp/download.tmp'' \<mapsto> [0x68, 0x65, 0x6C, 0x6C, 0x6F]], calls = []\<rparr>
     ''/tmp/download.tmp'' =
   ((''/tmp/download.tmp'',
     Some (Errorf ''not a recognized image type: '' ''text/plain; charset=utf-8'')),
    \<lparr>files = [''/tmp/download.tmp'' \<mapsto> [0x68, 0x65, 0x6C, 0x6C, 0x6F]], calls = []\<rparr>)"
  using C5_not_an_image
    [of "\<lparr>files = [''/tmp/download.tmp'' \<mapsto> [0x68, 0x65, 0x6C, 0x6C, 0x6F]], calls = []\<rparr>"
        "''/tmp/download.tmp''" "[0x68, 0x65, 0x6C, 0x6C, 0x6F]"
        "\<lparr>DetectContentType = (\<lambda>buffer. ''text/plain; charset=utf-8''), read_fault = None,
          seek_fault = None, rename_fault = None\<rparr>"]
  by (simp add: contains_eval)

lemma image_extension_table:
  "image_extension ''image/jpeg'' = Some ''.jpg''"
  "image_extension ''image/png'' = Some ''.png''"
  "image_extension ''image/gif'' = Some ''.gif''"
  "image_extension ''image/webp'' = Some ''.webp''"
  "image_extension ''image/bmp'' = Some ''.bmp''"
  "image_extension ''image/tiff'' = Some ''.tiff''"
  "image_extension ''image/svg+xml'' = Some ''.svg''"
  unfolding image_extension_def strings_Contains_def by code_simp+

lemma image_extension_range:
  "image_extension ct = Some ext \<Longrightarrow>
   ext \<in> {''.jpg'', ''.png'', ''.gif'', ''.webp'', ''.bmp'', ''.tiff'', ''.svg''}"
  by (auto simp: image_extension_def split: if_splits)


lemma zero_buffer_is_no_png:
  "replicate 8 (0 :: byte) \<noteq> [0x89, 0x50, 0x4E, 0x47, 0x0D, 0x0A, 0x1A, 0x0A]"
  by code_simp

text \<open>
  Claim C1, evaluated where it fails. The file \<^verbatim>\<open>photo.png\<close> holds a PNG signature and
  the sniffer answers \<^verbatim>\<open>image/png\<close> for it, so the name already ends with the extension
  of its content. The new path is \<^verbatim>\<open>filepath.Join(dir, base + ".png")\<close>, which is
  \<^verbatim>\<open>photo.png.png\<close>; it differs from the path given, the comparison of source line 73
  fails, and the file is renamed: the function returns \<^verbatim>\<open>photo.png.png\<close> and the old
  path is gone from the disk.
\<close>

theorem C1_correct_extension_still_renamed:
  "DetectAndRenameImageFile
     \<lparr>DetectContentType =
        (\<lambda>buffer. if take 8 buffer = [0x89, 0x50, 0x4E, 0x47, 0x0D, 0x0A, 0x1A, 0x0A]
                  then ''image/png'' else ''application/octet-stream''),
      read_fault = None, seek_fault = None, rename_fault = None\<rparr>
     \<lparr>files = [''photo.png'' \<mapsto> [0x89, 0x50, 0x4E, 0x47, 0x0D, 0x0A, 0x1A, 0x0A, 0, 0, 0, 0x0D]],
      calls = []\<rparr>
     ''photo.png'' =
   ((''photo.png.png'', None),
    \<lparr>files = [''photo.png.png'' \<mapsto> [0x89, 0x50, 0x4E, 0x47, 0x0D, 0x0A, 0x1A, 0x0A, 0, 0, 0, 0x0D]],
     calls = []\<rparr>)"
  by (simp add: DetectAndRenameImageFile_def os_Open_def file_Read_def file_Seek_def
      rename_for_content_type_def image_extension_table os_Rename_def
      filepath_Clean_def filepath_Dir_def filepath_Base_def IsPathSeparator_def Let_def)

subsection \<open>The new path never equals the old one\<close>

text \<open>
  \<^verbatim>\<open>filepath.Clean\<close> keeps a last element that is a real name (not empty, without
  separator, neither \<^verbatim>\<open>.\<close> nor \<^verbatim>\<open>..\<close>), so the base name of the joined path is the old
  base name with the extension appended, which is not the old base name.
\<close>

lemma dot_not_sep: "IsPathSeparator CHR ''.'' = False"
  by (simp add: IsPathSeparator_def)

lemma backtrack_take1:
  assumes "take 1 out = ''/''" and "1 \<le> dotdot" and "dotdot < length out"
  shows "take 1 (backtrack out dotdot) = ''/''"
proof -
  let ?tail = "takeWhile (\<lambda>c. \<not> IsPathSeparator c) (rev (drop (dotdot + 1) out))"
  have "length ?tail \<le> length out - (dotdot + 1)"
    by (metis length_drop length_rev length_takeWhile_le)
  then have "1 \<le> length out - 1 - length ?tail"
    using assms(2,3) by linarith
  then show ?thesis
    using assms(1) by (simp add: backtrack_def Let_def min_def)
qed

lemma takeWhile_append_sep:
  assumes "X \<noteq> []" and "last X = CHR ''/''"
  shows "takeWhile (\<lambda>c. \<not> IsPathSeparator c) (X @ E) = takeWhile (\<lambda>c. \<not> IsPathSeparator c) X"
    and "dropWhile (\<lambda>c. \<not> IsPathSeparator c) (X @ E) =
         dropWhile (\<lambda>c. \<not> IsPathSeparator c) X @ E"
    and "dropWhile (\<lambda>c. \<not> IsPathSeparator c) X \<noteq> []"
    and "last (dropWhile (\<lambda>c. \<not> IsPathSeparator c) X) = CHR ''/''"
proof -
  have mem: "last X \<in> set X"
    using assms(1) by (rule last_in_set)
  have sep: "\<not> \<not> IsPathSeparator (last X)"
    using assms(2) by (simp add: IsPathSeparator_def)
  show "takeWhile (\<lambda>c. \<not> IsPathSeparator c) (X @ E) = takeWhile (\<lambda>c. \<not> IsPathSeparator c) X"
    using mem sep by (rule takeWhile_append1)
  show "dropWhile (\<lambda>c. \<not> IsPathSeparator c) (X @ E) =
         dropWhile (\<lambda>c. \<not> IsPathSeparator c) X @ E"
    using mem sep by (rule dropWhile_append1)
  show ne: "dropWhile (\<lambda>c. \<not> IsPathSeparator c) X \<noteq> []"
    using mem sep by (auto simp: dropWhile_eq_Nil_conv)
  show "last (dropWhile (\<lambda>c. \<not> IsPathSeparator c) X) = CHR ''/''"
    using ne assms(2) by (metis last_appendR takeWhile_dropWhile_id)
qed

lemma clean_loop_last_element:
  assumes E: "E \<noteq> []" "CHR ''/'' \<notin> set E" "E \<noteq> ''.''" "E \<noteq> ''..''"
  shows "X = [] \<or> last X = CHR ''/'' \<Longrightarrow>
         (rooted \<longrightarrow> take 1 out = ''/'' \<and> 1 \<le> dotdot) \<Longrightarrow>
         \<exists>out'. clean_loop rooted (X @ E) out dotdot = out' @ E \<and>
                (out' = [] \<or> last out' = CHR ''/'')"
proof (induction X arbitrary: out dotdot rule: length_induct)
  case (1 X)
  show ?case
  proof (cases X)
    case Nil
    obtain c cs where Ecs: "E = c # cs"
      using E(1) by (cases E) auto
    have c: "c \<noteq> CHR ''/''" and cs: "CHR ''/'' \<notin> set cs"
      using E(2) Ecs by auto
    have hd1: "cs \<noteq> [] \<Longrightarrow> hd cs \<noteq> CHR ''/''"
      using cs by (cases cs) auto
    have hd2: "cs \<noteq> [] \<Longrightarrow> tl cs \<noteq> [] \<Longrightarrow> hd (tl cs) \<noteq> CHR ''/''"
      using cs by (cases cs; cases "tl cs") auto
    have b1: "IsPathSeparator c = False"
      using c by (simp add: IsPathSeparator_def)
    have b2: "(c = CHR ''.'' \<and> (cs = [] \<or> IsPathSeparator (hd cs))) = False"
      using E(3) Ecs hd1 by (auto simp: IsPathSeparator_def)
    have b3: "(c = CHR ''.'' \<and> cs \<noteq> [] \<and> hd cs = CHR ''.'' \<and>
              (tl cs = [] \<or> IsPathSeparator (hd (tl cs)))) = False"
      using E(4) Ecs hd2 by (cases cs) (auto simp: IsPathSeparator_def)
    have tw: "takeWhile (\<lambda>c. \<not> IsPathSeparator c) (c # cs) = c # cs"
      "dropWhile (\<lambda>c. \<not> IsPathSeparator c) (c # cs) = []"
      using c cs by (auto simp: IsPathSeparator_def takeWhile_eq_all_conv)
    let ?out' = "(if (rooted \<and> length out \<noteq> 1) \<or> (\<not> rooted \<and> length out \<noteq> 0)
                     then out @ ''/'' else out)"
    have res: "clean_loop rooted (X @ E) out dotdot = ?out' @ E"
      unfolding Nil Ecs append_Nil
      by (simp only: clean_loop.simps b1 b2 b3 if_False tw Let_def)
    have "?out' = [] \<or> last ?out' = CHR ''/''"
    proof (cases "(rooted \<and> length out \<noteq> 1) \<or> (\<not> rooted \<and> length out \<noteq> 0)")
      case True
      then show ?thesis by simp
    next
      case False
      show ?thesis
      proof (cases rooted)
        case True
        with False have "length out = 1" by simp
        with True "1.prems"(2) have "out = ''/''"
          by simp
        with False show ?thesis by simp
      next
        case False
        with \<open>\<not> ((rooted \<and> length out \<noteq> 1) \<or> (\<not> rooted \<and> length out \<noteq> 0))\<close>
        show ?thesis by simp
      qed
    qed
    with res show ?thesis by blast
  next
    case (Cons c cs)
    have lastX: "last X = CHR ''/''"
      using "1.prems"(1) Cons by simp
    have IH: "\<And>Y out dotdot. length Y < length X \<Longrightarrow> Y = [] \<or> last Y = CHR ''/'' \<Longrightarrow>
         (rooted \<longrightarrow> take 1 out = ''/'' \<and> 1 \<le> dotdot) \<Longrightarrow>
         \<exists>out'. clean_loop rooted (Y @ E) out dotdot = out' @ E \<and>
                (out' = [] \<or> last out' = CHR ''/'')"
      using "1.IH" by blast
    have cs_ok: "cs = [] \<or> last cs = CHR ''/''"
      using lastX Cons by (cases cs) auto
    show ?thesis
    proof (cases "IsPathSeparator c")
      case True
      have "clean_loop rooted (X @ E) out dotdot = clean_loop rooted (cs @ E) out dotdot"
        unfolding Cons append_Cons
        by (simp only: clean_loop.simps True if_True if_False simp_thms Let_def dot_not_sep)
      then show ?thesis
        using IH[of cs out dotdot] cs_ok "1.prems"(2) Cons by simp
    next
      case notsep: False
      then have cne: "c \<noteq> CHR ''/''"
        by (simp add: IsPathSeparator_def)
      then have csne: "cs \<noteq> []"
        using lastX Cons by auto
      show ?thesis
      proof (cases "c = CHR ''.'' \<and> (cs @ E = [] \<or> IsPathSeparator (hd (cs @ E)))")
        case True
        have "clean_loop rooted (X @ E) out dotdot = clean_loop rooted (cs @ E) out dotdot"
          unfolding Cons append_Cons
          by (simp only: clean_loop.simps True notsep if_True if_False simp_thms Let_def dot_not_sep)
        then show ?thesis
          using IH[of cs out dotdot] cs_ok "1.prems"(2) Cons by simp
      next
        case nb2: False
        show ?thesis
        proof (cases "c = CHR ''.'' \<and> cs @ E \<noteq> [] \<and> hd (cs @ E) = CHR ''.'' \<and>
              (tl (cs @ E) = [] \<or> IsPathSeparator (hd (tl (cs @ E))))")
          case True
          have tl_eq: "tl (cs @ E) = tl cs @ E"
            using csne by simp
          have c4: "tl cs @ E = [] \<or> IsPathSeparator (hd (tl cs @ E))"
            using True unfolding tl_eq by blast
          have tlne: "tl cs \<noteq> []"
            using True csne lastX Cons by (cases cs; cases "tl cs") auto
          have tl_ok: "tl cs = [] \<or> last (tl cs) = CHR ''/''"
            using tlne cs_ok csne by (cases cs) auto
          have len: "length (tl cs) < length X"
            using Cons csne by simp
          consider (undo) "length out > dotdot"
            | (dots) "\<not> length out > dotdot" "\<not> rooted"
            | (skip) "\<not> length out > dotdot" "rooted"
            by blast
          then show ?thesis
          proof cases
            case undo
            have "clean_loop rooted (X @ E) out dotdot =
                  clean_loop rooted (tl cs @ E) (backtrack out dotdot) dotdot"
              unfolding Cons append_Cons
              by (simp only: clean_loop.simps True notsep nb2 undo tl_eq c4 if_True if_False simp_thms Let_def dot_not_sep)
            moreover have "rooted \<longrightarrow> take 1 (backtrack out dotdot) = ''/'' \<and> 1 \<le> dotdot"
              using "1.prems"(2) undo backtrack_take1[of out dotdot] by blast
            ultimately show ?thesis
              using IH[OF len tl_ok, of "backtrack out dotdot" dotdot] by simp
          next
            case dots
            let ?o = "(if length out > 0 then out @ ''/'' else out) @ ''..''"
            have "clean_loop rooted (X @ E) out dotdot =
                  clean_loop rooted (tl cs @ E) ?o (length ?o)"
              unfolding Cons append_Cons
              by (simp only: clean_loop.simps True notsep nb2 dots tl_eq c4 if_True if_False simp_thms Let_def dot_not_sep)
            then show ?thesis
              using IH[OF len tl_ok, of ?o "length ?o"] dots by simp
          next
            case skip
            have "clean_loop rooted (X @ E) out dotdot =
                  clean_loop rooted (tl cs @ E) out dotdot"
              unfolding Cons append_Cons
              by (simp only: clean_loop.simps True notsep nb2 skip tl_eq c4 if_True if_False simp_thms Let_def dot_not_sep)
            then show ?thesis
              using IH[OF len tl_ok, of out dotdot] "1.prems"(2) by simp
          qed
        next
          case nb3: False
          let ?o = "(if (rooted \<and> length out \<noteq> 1) \<or> (\<not> rooted \<and> length out \<noteq> 0)
                     then out @ ''/'' else out)"
          let ?Y = "dropWhile (\<lambda>c. \<not> IsPathSeparator c) X"
          have Xne: "X \<noteq> []" using Cons by simp
          note tw = takeWhile_append_sep(1,2)[OF Xne lastX, of E] takeWhile_append_sep(3,4)[OF Xne lastX]
          have "clean_loop rooted (X @ E) out dotdot =
                clean_loop rooted (dropWhile (\<lambda>c. \<not> IsPathSeparator c) (X @ E))
                  (?o @ takeWhile (\<lambda>c. \<not> IsPathSeparator c) (X @ E)) dotdot"
            unfolding Cons append_Cons
            by (simp only: clean_loop.simps notsep nb2 nb3 if_True if_False simp_thms Let_def dot_not_sep)
          then have step: "clean_loop rooted (X @ E) out dotdot =
                clean_loop rooted (?Y @ E)
                  (?o @ takeWhile (\<lambda>c. \<not> IsPathSeparator c) X) dotdot"
            by (simp only: tw)
          have len: "length ?Y < length X"
            unfolding Cons using notsep
            by (simp add: le_imp_less_Suc length_dropWhile_le)
          have inv: "rooted \<longrightarrow>
              take 1 (?o @ takeWhile (\<lambda>c. \<not> IsPathSeparator c) X) = ''/'' \<and> 1 \<le> dotdot"
            using "1.prems"(2) by (cases out) auto
          show ?thesis
            using IH[OF len _ inv] tw(3,4) step by simp
        qed
      qed
    qed
  qed
qed


lemma filepath_Clean_last_element:
  assumes E: "E \<noteq> []" "CHR ''/'' \<notin> set E" "E \<noteq> ''.''" "E \<noteq> ''..''"
    and X: "X = [] \<or> last X = CHR ''/''"
  shows "\<exists>out'. filepath_Clean (X @ E) = out' @ E \<and> (out' = [] \<or> last out' = CHR ''/'')"
proof (cases "IsPathSeparator (hd (X @ E))")
  case True
  have hdE: "hd E \<noteq> CHR ''/''"
    using E(1,2) by (cases E) auto
  then have Xne: "X \<noteq> []"
    using True by (auto simp: IsPathSeparator_def)
  then have tl_eq: "tl (X @ E) = tl X @ E"
    by simp
  have tl_ok: "tl X = [] \<or> last (tl X) = CHR ''/''"
    using X Xne by (cases X) (auto split: if_splits)
  obtain out' where "clean_loop True (tl X @ E) ''/'' 1 = out' @ E"
    and "out' = [] \<or> last out' = CHR ''/''"
    using clean_loop_last_element[OF E tl_ok, of True "''/''" 1] by auto
  then show ?thesis
    using True E(1) by (auto simp: filepath_Clean_def tl_eq Let_def)
next
  case False
  obtain out' where "clean_loop False (X @ E) [] 0 = out' @ E"
    and "out' = [] \<or> last out' = CHR ''/''"
    using clean_loop_last_element[OF E X, of False "[]" 0] by auto
  then show ?thesis
    using False E(1) by (auto simp: filepath_Clean_def Let_def)
qed

lemma filepath_Base_last_element:
  assumes "E \<noteq> []" and "CHR ''/'' \<notin> set E" and "out' = [] \<or> last out' = CHR ''/''"
  shows "filepath_Base (out' @ E) = E"
proof -
  have lastE: "\<not> IsPathSeparator (hd (rev E))"
    using assms(1,2) by (metis IsPathSeparator_def hd_rev last_in_set)
  have strip: "dropWhile IsPathSeparator (rev E @ rev out') = rev E @ rev out'"
    using assms(1) lastE by (cases "rev E") auto
  have all: "\<forall>x\<in>set (rev E). \<not> IsPathSeparator x"
    using assms(2) by (auto simp: IsPathSeparator_def)
  have "takeWhile (\<lambda>c. \<not> IsPathSeparator c) (rev E @ rev out') = rev E"
  proof (cases "out' = []")
    case True
    then show ?thesis using all by (simp add: takeWhile_eq_all_conv)
  next
    case False
    then have "rev out' \<noteq> []" and "IsPathSeparator (hd (rev out'))"
      using assms(3) by (simp_all add: IsPathSeparator_def hd_rev)
    then have "takeWhile (\<lambda>c. \<not> IsPathSeparator c) (rev out') = []"
      by (cases "rev out'") simp_all
    moreover have "takeWhile (\<lambda>c. \<not> IsPathSeparator c) (rev E @ rev out') =
        rev E @ takeWhile (\<lambda>c. \<not> IsPathSeparator c) (rev out')"
      by (rule takeWhile_append2) (use all in blast)
    ultimately show ?thesis
      by simp
  qed
  then show ?thesis
    using assms(1) by (simp add: filepath_Base_def strip Let_def)
qed

lemma filepath_Base_shape:
  "filepath_Base p \<noteq> [] \<and> (filepath_Base p = ''/'' \<or> CHR ''/'' \<notin> set (filepath_Base p))"
proof -
  have "CHR ''/'' \<notin> set (takeWhile (\<lambda>c. \<not> IsPathSeparator c) xs)" for xs
    by (metis IsPathSeparator_def set_takeWhileD)
  then show ?thesis
    by (auto simp: filepath_Base_def Let_def)
qed

lemma filepath_Clean_not_empty: "filepath_Clean p \<noteq> []"
  by (auto simp: filepath_Clean_def Let_def)

lemma new_path_differs:
  assumes ext: "ext \<noteq> []" "CHR ''/'' \<notin> set ext" "ext \<noteq> ''.''" "ext \<noteq> ''..''"
  shows "filepath_Join [filepath_Dir p, filepath_Base p @ ext] \<noteq> p"
proof
  let ?d = "filepath_Dir p" and ?b = "filepath_Base p"
  assume eq: "filepath_Join [?d, ?b @ ext] = p"
  have d: "?d \<noteq> []"
    by (simp add: filepath_Dir_def filepath_Clean_not_empty)
  then have join: "filepath_Join [?d, ?b @ ext] = filepath_Clean (?d @ ''/'' @ ?b @ ext)"
    by simp
  show False
  proof (cases "?b = ''/''")
    case True
    have "filepath_Clean ((?d @ ''//'') @ ext) = p"
      using eq join True by simp
    moreover obtain out' where "filepath_Clean ((?d @ ''//'') @ ext) = out' @ ext"
      and "out' = [] \<or> last out' = CHR ''/''"
      using filepath_Clean_last_element[OF ext, of "?d @ ''//''"] by auto
    ultimately have "filepath_Base p = ext"
      using filepath_Base_last_element[OF ext(1,2)] by metis
    then show False
      using True ext(2) by auto
  next
    case False
    then have b: "?b \<noteq> []" "CHR ''/'' \<notin> set ?b"
      using filepath_Base_shape[of p] by auto
    have E: "?b @ ext \<noteq> []" "CHR ''/'' \<notin> set (?b @ ext)" "?b @ ext \<noteq> ''.''"
      "?b @ ext \<noteq> ''..''"
      using b ext by (auto simp: append_eq_Cons_conv Cons_eq_append_conv)
    have "filepath_Clean ((?d @ ''/'') @ (?b @ ext)) = p"
      using eq join by simp
    moreover obtain out' where "filepath_Clean ((?d @ ''/'') @ (?b @ ext)) = out' @ (?b @ ext)"
      and "out' = [] \<or> last out' = CHR ''/''"
      using filepath_Clean_last_element[OF E, of "?d @ ''/''"] by auto
    ultimately have "filepath_Base p = ?b @ ext"
      using filepath_Base_last_element[OF E(1,2)] by metis
    then show False
      using ext(1) by simp
  qed
qed


lemma image_extension_is_suffix:
  assumes "image_extension ct = Some ext"
  shows "ext \<noteq> []" "CHR ''/'' \<notin> set ext" "ext \<noteq> ''.''" "ext \<noteq> ''..''"
  using image_extension_range[OF assms] by auto

lemma rename_for_content_type_success:
  assumes "snd (fst (rename_for_content_type env w filePath ct)) = None"
    and "files w filePath = Some content"
  shows "fst (fst (rename_for_content_type env w filePath ct)) \<noteq> filePath \<and>
         files (snd (rename_for_content_type env w filePath ct)) filePath = None \<and>
         files (snd (rename_for_content_type env w filePath ct))
           (fst (fst (rename_for_content_type env w filePath ct))) = Some content"
proof (cases "image_extension ct")
  case None
  then show ?thesis
    using assms by (simp add: rename_for_content_type_def)
next
  case (Some ext)
  have ne: "filepath_Join [filepath_Dir filePath, filepath_Base filePath @ ext] \<noteq> filePath"
    by (rule new_path_differs) (rule image_extension_is_suffix[OF Some])+
  then have ne': "filePath \<noteq> filepath_Join [filepath_Dir filePath, filepath_Base filePath @ ext]"
    by (rule not_sym)
  show ?thesis
    using assms Some ne ne'
    by (simp add: rename_for_content_type_def os_Rename_def Let_def
        del: filepath_Join.simps split: option.splits)
qed

text \<open>
  What the evaluation above shows at one path holds at every path: whenever the function
  returns a nil error, the path it returns is not the path it was given, the file has
  been moved there, and nothing is left under the old path. The early return of source
  line 74 is never taken.
\<close>

theorem DetectAndRenameImageFile_success_always_renames:
  assumes "snd (fst (DetectAndRenameImageFile env w filePath)) = None"
  shows "fst (fst (DetectAndRenameImageFile env w filePath)) \<noteq> filePath \<and>
         files (snd (DetectAndRenameImageFile env w filePath)) filePath = None \<and>
         files (snd (DetectAndRenameImageFile env w filePath))
           (fst (fst (DetectAndRenameImageFile env w filePath))) = files w filePath \<and>
         files w filePath \<noteq> None"
proof (cases "files w filePath")
  case None
  then show ?thesis
    using assms by (simp add: DetectAndRenameImageFile_def os_Open_def)
next
  case (Some content)
  show ?thesis
  proof (cases "read_fault env = None \<and> seek_fault env = None")
    case True
    then have eq: "DetectAndRenameImageFile env w filePath =
           rename_for_content_type env w filePath
             (DetectContentType env (take 512 content @ replicate (512 - length content) 0))"
      using Some by (simp add: DetectAndRenameImageFile_sniffed)
    show ?thesis
      using rename_for_content_type_success[OF assms[unfolded eq] Some] Some
      by (simp add: eq)
  next
    case False
    show ?thesis
    proof (cases "read_fault env")
      case (Some m)
      then show ?thesis
        using assms \<open>files w filePath = Some content\<close>
        by (simp add: DetectAndRenameImageFile_def os_Open_def file_Read_def)
    next
      case None
      then obtain m where "seek_fault env = Some m"
        using False by auto
      then show ?thesis
        using assms None \<open>files w filePath = Some content\<close>
        by (simp add: DetectAndRenameImageFile_def os_Open_def file_Read_ok file_Seek_def
            split: if_splits)
    qed
  qed
qed

subsection \<open>Renaming and classification\<close>








lemma rename_for_content_type_errors:
  "snd (fst (rename_for_content_type env w filePath ct)) \<noteq>
     Some (Errorf ''failed to read file for type detection: '' a)"
  by (simp add: rename_for_content_type_def Let_def split: option.split prod.split)

text \<open>
  Claim C8. A file of fewer than 512 bytes that opens and whose read reports no I/O
  fault: the read fills the front of the buffer with all the bytes of the file and leaves
  the zero bytes behind them, and its only possible error is \<^verbatim>\<open>io.EOF\<close>, for the empty
  file. The function never returns the error \<^verbatim>\<open>failed to read file for type detection\<close>,
  whatever else happens; and when the seek does not fail either, its result is that of
  the classification and rename steps on the content type detected from those bytes
  (followed by the zero padding of the buffer).
\<close>

theorem C8_short_read_is_no_error:
  assumes "files w filePath = Some content" and "length content < 512"
    and "read_fault env = None"
  shows
    "file_Read env content (replicate 512 0) =
       (content @ replicate (512 - length content) 0,
        if content = [] then Some EOF else None) \<and>
     (\<forall>a. snd (fst (DetectAndRenameImageFile env w filePath)) \<noteq>
            Some (Errorf ''failed to read file for type detection: '' a)) \<and>
     (seek_fault env = None \<longrightarrow>
        DetectAndRenameImageFile env w filePath =
          rename_for_content_type env w filePath
            (DetectContentType env (content @ replicate (512 - length content) 0)))"
proof (intro conjI allI impI)
  show "file_Read env content (replicate 512 0) =
       (content @ replicate (512 - length content) 0,
        if content = [] then Some EOF else None)"
    using assms by (simp add: file_Read_ok)
next
  fix a
  show "snd (fst (DetectAndRenameImageFile env w filePath)) \<noteq>
            Some (Errorf ''failed to read file for type detection: '' a)"
  proof (cases "seek_fault env")
    case None
    then show ?thesis
      using assms by (simp add: DetectAndRenameImageFile_sniffed rename_for_content_type_errors)
  next
    case (Some m)
    then show ?thesis
      using assms
      by (simp add: DetectAndRenameImageFile_def os_Open_def file_Read_ok file_Seek_def)
  qed
next
  assume "seek_fault env = None"
  then show "DetectAndRenameImageFile env w filePath =
          rename_for_content_type env w filePath
            (DetectContentType env (content @ replicate (512 - length content) 0))"
    using assms by (simp add: DetectAndRenameImageFile_sniffed)
qed

theorem C8_short_read_is_no_error_witness:
  "DetectAndRenameImageFile
     \<lparr>DetectContentType =
        (\<lambda>buffer. if take 8 buffer = [0x89, 0x50, 0x4E, 0x47, 0x0D, 0x0A, 0x1A, 0x0A]
                  then ''image/png'' else ''application/octet-stream''),
      read_fault = None, seek_fault = None, rename_fault = None\<rparr>
     \<lparr>files = [''empty.tmp'' \<mapsto> []], calls = []\<rparr> ''empty.tmp'' =
   ((''empty.tmp'', Some (Errorf ''not a recognized image type: '' ''application/octet-stream'')),
    \<lparr>files = [''empty.tmp'' \<mapsto> []], calls = []\<rparr>)"
  using C8_short_read_is_no_error
    [of "\<lparr>files = [''empty.tmp'' \<mapsto> []], calls = []\<rparr>" "''empty.tmp''" "[]"
        "\<lparr>DetectContentType =
            (\<lambda>buffer. if take 8 buffer = [0x89, 0x50, 0x4E, 0x47, 0x0D, 0x0A, 0x1A, 0x0A]
                      then ''image/png'' else ''application/octet-stream''),
          read_fault = None, seek_fault = None, rename_fault = None\<rparr>"]
  by (simp add: rename_for_content_type_def zero_buffer_is_no_png contains_eval
      image_extension_None)

section \<open>Properties of the tool handlers\<close>

subsection \<open>\<^verbatim>\<open>push_image\<close> and \<^verbatim>\<open>clear_image\<close>\<close>

lemma assert_string_unset:
  "(\<not> snd (assert_string v) \<or> fst (assert_string v) = '''') = (fst (assert_string v) = '''')"
  "(snd (assert_string v) \<and> fst (assert_string v) \<noteq> '''') = (fst (assert_string v) \<noteq> '''')"
  "(snd (assert_string v) \<longrightarrow> fst (assert_string v) = '''') = (fst (assert_string v) = '''')"
  by (cases v; simp)+

lemma ToolPushImage_Implement_unset:
  assumes "fst (assert_string (map_index arguments ''imagePath'')) = ''''"
    and "fst (assert_string (map_index arguments ''imageUrl'')) = ''''"
  shows "ToolPushImage_Implement env w arguments =
           (case setupXTDriver env arguments of
              Inl err \<Rightarrow> Inl err
            | Inr driverExt \<Rightarrow> Inl (Errorf ''either imagePath or imageUrl is required'' ''''),
            w\<lparr>calls := calls w @ [Call_setupXTDriver]\<rparr>)"
  using assms
  by (simp add: ToolPushImage_Implement_def Let_def case_prod_beta assert_string_unset
      split: sum.split)

lemma ToolPushImage_Implement_pushing:
  assumes "setupXTDriver env arguments = Inr driverExt"
    and "fst (assert_string (map_index arguments ''imagePath'')) \<noteq> '''' \<or>
         fst (assert_string (map_index arguments ''imageUrl'')) \<noteq> ''''"
    and "push_image_download env (w\<lparr>calls := calls w @ [Call_setupXTDriver]\<rparr>)
           (snd (assert_string (map_index arguments ''imageUrl'')))
           (fst (assert_string (map_index arguments ''imageUrl'')))
           (fst (assert_string (map_index arguments ''imagePath''))) =
         (Inr (imagePath, downloadedFile), w1)"
  shows "ToolPushImage_Implement env w arguments =
     (let imageUrl = fst (assert_string (map_index arguments ''imageUrl''));
          cleanup = fst (assert_bool (map_index arguments ''cleanup''));
          clearBefore = fst (assert_bool (map_index arguments ''clearBefore''));
          cleared = (clearBefore \<and> ClearImages driverExt = None);
          w3 = w1\<lparr>calls := calls w1 @ (if clearBefore then [Call_ClearImages] else []) @
                                [Call_PushImage imagePath]\<rparr>;
          w4 = (if downloadedFile \<and> cleanup then snd (os_Remove w3 imagePath) else w3)
      in case PushImage driverExt imagePath of
           Some err \<Rightarrow> (Inl err, w4)
         | None \<Rightarrow>
             (Inr (SuccessResult
                ((if imageUrl \<noteq> ''''
                  then ''Successfully downloaded and pushed image from '' @ imageUrl @
                       '' to device''
                  else ''Successfully pushed image to device'') @
                 (if cleared then '' (images cleared before pushing)'' else ''''))
                \<lparr>ImagePath = imagePath, ImageUrl = imageUrl, Cleared = cleared\<rparr>), w4))"
proof -
  have valid: "\<not> (fst (assert_string (map_index arguments ''imagePath'')) = '''' \<and>
         fst (assert_string (map_index arguments ''imageUrl'')) = '''')"
    using assms(2) by blast
  show ?thesis
  proof (cases "PushImage driverExt imagePath")
    case None
    then show ?thesis
      unfolding ToolPushImage_Implement_def using valid
      by (simp add: assms(1,3) Let_def case_prod_beta assert_string_unset
          push_image_clear_def NewMCPSuccessResponse_def split: option.split) blast?
  next
    case (Some err)
    then show ?thesis
      unfolding ToolPushImage_Implement_def using valid
      by (simp add: assms(1,3) Let_def case_prod_beta assert_string_unset
          push_image_clear_def NewMCPSuccessResponse_def split: option.split) blast?
  qed
qed

lemma rename_for_content_type_keeps_file:
  assumes "files w p = Some content"
  shows "\<exists>renamed err w'.
           rename_for_content_type env w p ct = ((renamed, err), w') \<and> calls w' = calls w \<and>
           files w' (if err = None then renamed else p) = Some content \<and>
           ((if err = None then renamed else p) \<noteq> p \<longrightarrow> files w' p = None)"
  using assms
  by (auto simp: rename_for_content_type_def os_Rename_def Let_def
      simp del: filepath_Join.simps split: option.split)

lemma DetectAndRenameImageFile_keeps_file:
  assumes "files w p = Some content"
  shows "\<exists>renamed err w'.
           DetectAndRenameImageFile env w p = ((renamed, err), w') \<and> calls w' = calls w \<and>
           files w' (if err = None then renamed else p) = Some content \<and>
           ((if err = None then renamed else p) \<noteq> p \<longrightarrow> files w' p = None)"
proof (cases "read_fault env = None \<and> seek_fault env = None")
  case True
  then show ?thesis
    using rename_for_content_type_keeps_file[OF assms]
    by (simp only: DetectAndRenameImageFile_sniffed[OF assms])
next
  case False
  then show ?thesis
    using assms
    by (auto simp: DetectAndRenameImageFile_def os_Open_def file_Read_def file_Seek_def Let_def
        split: option.split)
qed

lemma push_image_download_url:
  assumes "imageUrl \<noteq> ''''" and "download env imageUrl = Inr (downloadedPath, content)"
  shows "\<exists>imagePath w2.
           push_image_download env w0 True imageUrl p = (Inr (imagePath, True), w2) \<and>
           calls w2 = calls w0 @ [Call_DownloadFileByUrl imageUrl] \<and>
           files w2 imagePath = Some content \<and>
           (imagePath \<noteq> downloadedPath \<longrightarrow> files w2 downloadedPath = None)"
proof -
  let ?w1 = "w0\<lparr>calls := calls w0 @ [Call_DownloadFileByUrl imageUrl],
                 files := (files w0)(downloadedPath \<mapsto> content)\<rparr>"
  have dl: "DownloadFileByUrl env w0 imageUrl = ((downloadedPath, None), ?w1)"
    using assms by (simp add: DownloadFileByUrl_def Let_def)
  have "files ?w1 downloadedPath = Some content"
    by simp
  from DetectAndRenameImageFile_keeps_file[OF this, of env]
  obtain renamed err w2 where
    r: "DetectAndRenameImageFile env ?w1 downloadedPath = ((renamed, err), w2)"
    and c: "calls w2 = calls ?w1"
    and f: "files w2 (if err = None then renamed else downloadedPath) = Some content"
    and g: "(if err = None then renamed else downloadedPath) \<noteq> downloadedPath \<longrightarrow>
            files w2 downloadedPath = None"
    by blast
  show ?thesis
    using assms(1) dl r c f g
    by (cases err) (simp_all add: push_image_download_def)
qed

lemma os_Remove_effect:
  "calls (snd (os_Remove w p)) = calls w"
  "files (snd (os_Remove w p)) = (files w)(p := None)"
  by (auto simp: os_Remove_def split: option.split)

lemmas handler_eval =
  ToolPushImage_Implement_def push_image_download_def push_image_clear_def
  DownloadFileByUrl_def DetectAndRenameImageFile_def rename_for_content_type_def
  os_Open_def file_Read_def file_Seek_def os_Rename_def os_Remove_def
  filepath_Clean_def filepath_Dir_def filepath_Base_def IsPathSeparator_def
  map_index_def NewMCPSuccessResponse_def image_extension_table Let_def

text \<open>
  Claim C2 as stated, at an invocation with no argument at all on a device that cannot be
  resolved: the handler returns the error of the setup step, not the argument error, and
  the setup call has been made before the arguments are looked at.
\<close>

theorem C2_setup_failure_precedes_argument_check:
  "ToolPushImage_Implement
     \<lparr>DetectContentType = (\<lambda>buffer. ''application/octet-stream''), read_fault = None,
      seek_fault = None, rename_fault = None,
      setupXTDriver = (\<lambda>arguments. Inl (OSError ''device not found'')),
      download = (\<lambda>url. Inl (OSError ''no network''))\<rparr>
     \<lparr>files = Map.empty, calls = []\<rparr> Map.empty =
   (Inl (OSError ''device not found''), \<lparr>files = Map.empty, calls = [Call_setupXTDriver]\<rparr>)"
  by (simp add: handler_eval)

text \<open>
  Claim C2, amended. The arguments hold neither a non-empty string \<^verbatim>\<open>imagePath\<close> nor a
  non-empty string \<^verbatim>\<open>imageUrl\<close> (the key is absent, or holds the empty string or a value
  that is no string). The handler first resolves the device with \<^verbatim>\<open>setupXTDriver\<close>. When
  that succeeds it aborts with the hard error \<^verbatim>\<open>either imagePath or imageUrl is required\<close>;
  when it fails, the error of the setup step is returned instead. Either way the setup
  step is the only call made: nothing is downloaded, cleared or pushed, and no file is
  touched.
\<close>

theorem C2_missing_image_argument:
  assumes "fst (assert_string (map_index arguments ''imagePath'')) = ''''"
    and "fst (assert_string (map_index arguments ''imageUrl'')) = ''''"
  shows "ToolPushImage_Implement env w arguments =
           (case setupXTDriver env arguments of
              Inl err \<Rightarrow> Inl err
            | Inr driverExt \<Rightarrow> Inl (Errorf ''either imagePath or imageUrl is required'' ''''),
            w\<lparr>calls := calls w @ [Call_setupXTDriver]\<rparr>)"
  using assms by (rule ToolPushImage_Implement_unset)

theorem C2_missing_image_argument_witness:
  "ToolPushImage_Implement
     \<lparr>DetectContentType = (\<lambda>buffer. ''application/octet-stream''), read_fault = None,
      seek_fault = None, rename_fault = None,
      setupXTDriver = (\<lambda>arguments. Inr \<lparr>ClearImages = None, PushImage = (\<lambda>path. None)\<rparr>),
      download = (\<lambda>url. Inl (OSError ''no network''))\<rparr>
     \<lparr>files = Map.empty, calls = []\<rparr> [''imagePath'' \<mapsto> String '''', ''cleanup'' \<mapsto> Bool True] =
   (Inl (Errorf ''either imagePath or imageUrl is required'' ''''),
    \<lparr>files = Map.empty, calls = [Call_setupXTDriver]\<rparr>)"
  using C2_missing_image_argument
    [of "[''imagePath'' \<mapsto> String '''', ''cleanup'' \<mapsto> Bool True]"
        "\<lparr>DetectContentType = (\<lambda>buffer. ''application/octet-stream''), read_fault = None,
          seek_fault = None, rename_fault = None,
          setupXTDriver = (\<lambda>arguments. Inr \<lparr>ClearImages = None, PushImage = (\<lambda>path. None)\<rparr>),
          download = (\<lambda>url. Inl (OSError ''no network''))\<rparr>"
        "\<lparr>files = Map.empty, calls = []\<rparr>"]
  by (simp add: map_index_def)

text \<open>
  Claim C6. The device is resolved, \<^verbatim>\<open>imageUrl\<close> is a non-empty string and the download
  succeeds, leaving the bytes \<open>content\<close> under \<open>downloadedPath\<close>. Let \<open>imagePath\<close> be the path
  handed to \<^verbatim>\<open>PushImage\<close> (the renamed file, or the downloaded one when type detection or
  the rename failed). Whether the push fails (the handler returns its error) or succeeds
  (the handler returns a success envelope for that path): with \<^verbatim>\<open>cleanup\<close> true, no file
  is left under \<open>imagePath\<close> nor under \<open>downloadedPath\<close>; with \<^verbatim>\<open>cleanup\<close> false, absent or
  no boolean, the downloaded bytes are still there under \<open>imagePath\<close>. The model takes
  \<^verbatim>\<open>os.Remove\<close> of an existing file to succeed; the source ignores its error.
\<close>

theorem C6_cleanup_of_downloaded_file:
  assumes "setupXTDriver env arguments = Inr driverExt"
    and "arguments ''imageUrl'' = Some (String imageUrl)" and "imageUrl \<noteq> ''''"
    and "download env imageUrl = Inr (downloadedPath, content)"
  shows "\<exists>imagePath.
           last (calls (snd (ToolPushImage_Implement env w arguments))) = Call_PushImage imagePath \<and>
           (case PushImage driverExt imagePath of
              Some err \<Rightarrow> fst (ToolPushImage_Implement env w arguments) = Inl err
            | None \<Rightarrow>
                (\<exists>message returnData.
                   fst (ToolPushImage_Implement env w arguments) =
                     Inr (SuccessResult message returnData) \<and>
                   ImagePath returnData = imagePath)) \<and>
           (if fst (assert_bool (map_index arguments ''cleanup''))
            then files (snd (ToolPushImage_Implement env w arguments)) imagePath = None \<and>
                 files (snd (ToolPushImage_Implement env w arguments)) downloadedPath = None
            else files (snd (ToolPushImage_Implement env w arguments)) imagePath = Some content)"
proof -
  let ?w0 = "w\<lparr>calls := calls w @ [Call_setupXTDriver]\<rparr>"
  have url: "assert_string (map_index arguments ''imageUrl'') = (imageUrl, True)"
    using assms(2) by (simp add: map_index_def)
  obtain imagePath w2 where
    dl: "push_image_download env ?w0 True imageUrl
           (fst (assert_string (map_index arguments ''imagePath''))) =
         (Inr (imagePath, True), w2)"
    and f: "files w2 imagePath = Some content"
    and g: "imagePath \<noteq> downloadedPath \<longrightarrow> files w2 downloadedPath = None"
    using push_image_download_url[OF assms(3,4)] by blast
  have R: "ToolPushImage_Implement env w arguments =
     (let imageUrl = fst (assert_string (map_index arguments ''imageUrl''));
          cleanup = fst (assert_bool (map_index arguments ''cleanup''));
          clearBefore = fst (assert_bool (map_index arguments ''clearBefore''));
          cleared = (clearBefore \<and> ClearImages driverExt = None);
          w3 = w2\<lparr>calls := calls w2 @ (if clearBefore then [Call_ClearImages] else []) @
                                [Call_PushImage imagePath]\<rparr>;
          w4 = (if True \<and> cleanup then snd (os_Remove w3 imagePath) else w3)
      in case PushImage driverExt imagePath of
           Some err \<Rightarrow> (Inl err, w4)
         | None \<Rightarrow>
             (Inr (SuccessResult
                ((if imageUrl \<noteq> ''''
                  then ''Successfully downloaded and pushed image from '' @ imageUrl @
                       '' to device''
                  else ''Successfully pushed image to device'') @
                 (if cleared then '' (images cleared before pushing)'' else ''''))
                \<lparr>ImagePath = imagePath, ImageUrl = imageUrl, Cleared = cleared\<rparr>), w4))"
    using assms(3) dl
    by (intro ToolPushImage_Implement_pushing[OF assms(1)]) (simp_all add: url)
  show ?thesis
    using f g
    by (intro exI[of _ imagePath])
       (simp add: R Let_def os_Remove_effect split: option.split)
qed

theorem C6_cleanup_of_downloaded_file_witness:
  "fst (ToolPushImage_Implement
     \<lparr>DetectContentType =
        (\<lambda>buffer. if take 8 buffer = [0x89, 0x50, 0x4E, 0x47, 0x0D, 0x0A, 0x1A, 0x0A]
                  then ''image/png'' else ''application/octet-stream''),
      read_fault = None, seek_fault = None, rename_fault = None,
      setupXTDriver =
        (\<lambda>arguments. Inr \<lparr>ClearImages = None,
                             PushImage = (\<lambda>path. Some (OSError ''push failed''))\<rparr>),
      download =
        (\<lambda>url. Inr (''/tmp/download.tmp'',
                     [0x89, 0x50, 0x4E, 0x47, 0x0D, 0x0A, 0x1A, 0x0A, 0, 0, 0, 0x0D]))\<rparr>
     \<lparr>files = Map.empty, calls = []\<rparr>
     [''imageUrl'' \<mapsto> String ''http://host/a'', ''cleanup'' \<mapsto> Bool True]) =
     Inl (OSError ''push failed'') \<and>
   calls (snd (ToolPushImage_Implement
     \<lparr>DetectContentType =
        (\<lambda>buffer. if take 8 buffer = [0x89, 0x50, 0x4E, 0x47, 0x0D, 0x0A, 0x1A, 0x0A]
                  then ''image/png'' else ''application/octet-stream''),
      read_fault = None, seek_fault = None, rename_fault = None,
      setupXTDriver =
        (\<lambda>arguments. Inr \<lparr>ClearImages = None,
                             PushImage = (\<lambda>path. Some (OSError ''push failed''))\<rparr>),
      download =
        (\<lambda>url. Inr (''/tmp/download.tmp'',
                     [0x89, 0x50, 0x4E, 0x47, 0x0D, 0x0A, 0x1A, 0x0A, 0, 0, 0, 0x0D]))\<rparr>
     \<lparr>files = Map.empty, calls = []\<rparr>
     [''imageUrl'' \<mapsto> String ''http://host/a'', ''cleanup'' \<mapsto> Bool True])) =
     [Call_setupXTDriver, Call_DownloadFileByUrl ''http://host/a'',
      Call_PushImage ''/tmp/download.tmp.png''] \<and>
   files (snd (ToolPushImage_Implement
     \<lparr>DetectContentType =
        (\<lambda>buffer. if take 8 buffer = [0x89, 0x50, 0x4E, 0x47, 0x0D, 0x0A, 0x1A, 0x0A]
                  then ''image/png'' else ''application/octet-stream''),
      read_fault = None, seek_fault = None, rename_fault = None,
      setupXTDriver =
        (\<lambda>arguments. Inr \<lparr>ClearImages = None,
                             PushImage = (\<lambda>path. Some (OSError ''push failed''))\<rparr>),
      download =
        (\<lambda>url. Inr (''/tmp/download.tmp'',
                     [0x89, 0x50, 0x4E, 0x47, 0x0D, 0x0A, 0x1A, 0x0A, 0, 0, 0, 0x0D]))\<rparr>
     \<lparr>files = Map.empty, calls = []\<rparr>
     [''imageUrl'' \<mapsto> String ''http://host/a'', ''cleanup'' \<mapsto> Bool True]))
     ''/tmp/download.tmp.png'' = None"
  using C6_cleanup_of_downloaded_file
    [of "\<lparr>DetectContentType =
            (\<lambda>buffer. if take 8 buffer = [0x89, 0x50, 0x4E, 0x47, 0x0D, 0x0A, 0x1A, 0x0A]
                      then ''image/png'' else ''application/octet-stream''),
          read_fault = None, seek_fault = None, rename_fault = None,
          setupXTDriver =
            (\<lambda>arguments. Inr \<lparr>ClearImages = None,
                                 PushImage = (\<lambda>path. Some (OSError ''push failed''))\<rparr>),
          download =
            (\<lambda>url. Inr (''/tmp/download.tmp'',
                         [0x89, 0x50, 0x4E, 0x47, 0x0D, 0x0A, 0x1A, 0x0A, 0, 0, 0, 0x0D]))\<rparr>"
        "[''imageUrl'' \<mapsto> String ''http://host/a'', ''cleanup'' \<mapsto> Bool True]"
        "\<lparr>ClearImages = None, PushImage = (\<lambda>path. Some (OSError ''push failed''))\<rparr>"
        "''http://host/a''" "''/tmp/download.tmp''"
        "[0x89, 0x50, 0x4E, 0x47, 0x0D, 0x0A, 0x1A, 0x0A, 0, 0, 0, 0x0D]"
        "\<lparr>files = Map.empty, calls = []\<rparr>"]
  by (simp add: handler_eval)

text \<open>
  Claim C7. The device is resolved and its \<^verbatim>\<open>ClearImages\<close> call succeeds: the handler
  returns no error and a success envelope whose payload is the record with the single
  field \<^verbatim>\<open>Success\<close>, set to true; the calls made are the setup step and \<^verbatim>\<open>ClearImages\<close>.
\<close>

theorem C7_clear_image_success:
  assumes "setupXTDriver env arguments = Inr driverExt"
    and "ClearImages driverExt = None"
  shows "ToolClearImage_Implement env w arguments =
           (Inr (SuccessResult ''Successfully cleared images from device'' \<lparr>Success = True\<rparr>),
            w\<lparr>calls := calls w @ [Call_setupXTDriver, Call_ClearImages]\<rparr>)"
  using assms by (simp add: ToolClearImage_Implement_def NewMCPSuccessResponse_def)

theorem C7_clear_image_success_witness:
  "ToolClearImage_Implement
     \<lparr>DetectContentType = (\<lambda>buffer. ''application/octet-stream''), read_fault = None,
      seek_fault = None, rename_fault = None,
      setupXTDriver = (\<lambda>arguments. Inr \<lparr>ClearImages = None, PushImage = (\<lambda>path. None)\<rparr>),
      download = (\<lambda>url. Inl (OSError ''no network''))\<rparr>
     \<lparr>files = Map.empty, calls = []\<rparr>
     [''platform'' \<mapsto> String ''android'', ''serial'' \<mapsto> String ''emulator-5554''] =
   (Inr (SuccessResult ''Successfully cleared images from device'' \<lparr>Success = True\<rparr>),
    \<lparr>files = Map.empty, calls = [Call_setupXTDriver, Call_ClearImages]\<rparr>)"
  using C7_clear_image_success
    [of "\<lparr>DetectContentType = (\<lambda>buffer. ''application/octet-stream''), read_fault = None,
          seek_fault = None, rename_fault = None,
          setupXTDriver = (\<lambda>arguments. Inr \<lparr>ClearImages = None, PushImage = (\<lambda>path. None)\<rparr>),
          download = (\<lambda>url. Inl (OSError ''no network''))\<rparr>"
        "[''platform'' \<mapsto> String ''android'', ''serial'' \<mapsto> String ''emulator-5554'']"
        "\<lparr>ClearImages = None, PushImage = (\<lambda>path. None)\<rparr>"
        "\<lparr>files = Map.empty, calls = []\<rparr>"]
  by simp

text \<open>
  Claim C10. The device is resolved, an image argument is given and the download block
  (if any) has delivered the image path. With \<^verbatim>\<open>clearBefore\<close> true and a failing
  \<^verbatim>\<open>ClearImages\<close>, the handler goes on: the call after \<^verbatim>\<open>ClearImages\<close> is \<^verbatim>\<open>PushImage\<close> on
  the image path, a failing push returns the error of the push, and a successful push
  returns a success envelope whose payload has \<^verbatim>\<open>Cleared\<close> false. In every success
  envelope of the handler, \<^verbatim>\<open>Cleared\<close> is true exactly when \<^verbatim>\<open>clearBefore\<close> was true and
  \<^verbatim>\<open>ClearImages\<close> succeeded.
\<close>

theorem C10_failed_pre_clear_does_not_abort:
  assumes "setupXTDriver env arguments = Inr driverExt"
    and "fst (assert_string (map_index arguments ''imagePath'')) \<noteq> '''' \<or>
         fst (assert_string (map_index arguments ''imageUrl'')) \<noteq> ''''"
    and "push_image_download env (w\<lparr>calls := calls w @ [Call_setupXTDriver]\<rparr>)
           (snd (assert_string (map_index arguments ''imageUrl'')))
           (fst (assert_string (map_index arguments ''imageUrl'')))
           (fst (assert_string (map_index arguments ''imagePath''))) =
         (Inr (imagePath, downloadedFile), w1)"
  shows "(fst (assert_bool (map_index arguments ''clearBefore'')) \<and>
          ClearImages driverExt \<noteq> None \<longrightarrow>
            calls (snd (ToolPushImage_Implement env w arguments)) =
              calls w1 @ [Call_ClearImages, Call_PushImage imagePath] \<and>
            (case PushImage driverExt imagePath of
               Some err \<Rightarrow> fst (ToolPushImage_Implement env w arguments) = Inl err
             | None \<Rightarrow>
                 (\<exists>message returnData.
                    fst (ToolPushImage_Implement env w arguments) =
                      Inr (SuccessResult message returnData) \<and>
                    ImagePath returnData = imagePath \<and> Cleared returnData = False))) \<and>
         (\<forall>message returnData.
            fst (ToolPushImage_Implement env w arguments) =
              Inr (SuccessResult message returnData) \<longrightarrow>
            Cleared returnData =
              (fst (assert_bool (map_index arguments ''clearBefore'')) \<and>
               ClearImages driverExt = None))"
  by (auto simp: ToolPushImage_Implement_pushing[OF assms] Let_def os_Remove_effect
      split: option.split)

theorem C10_failed_pre_clear_does_not_abort_witness:
  "ToolPushImage_Implement
     \<lparr>DetectContentType = (\<lambda>buffer. ''application/octet-stream''), read_fault = None,
      seek_fault = None, rename_fault = None,
      setupXTDriver =
        (\<lambda>arguments. Inr \<lparr>ClearImages = Some (OSError ''clear failed''),
                             PushImage = (\<lambda>path. None)\<rparr>),
      download = (\<lambda>url. Inl (OSError ''no network''))\<rparr>
     \<lparr>files = Map.empty, calls = []\<rparr>
     [''imagePath'' \<mapsto> String ''/sdcard/a.png'', ''clearBefore'' \<mapsto> Bool True] =
   (Inr (SuccessResult ''Successfully pushed image to device''
           \<lparr>ImagePath = ''/sdcard/a.png'', ImageUrl = '''', Cleared = False\<rparr>),
    \<lparr>files = Map.empty,
     calls = [Call_setupXTDriver, Call_ClearImages, Call_PushImage ''/sdcard/a.png'']\<rparr>)"
  using C10_failed_pre_clear_does_not_abort
    [of "\<lparr>DetectContentType = (\<lambda>buffer. ''application/octet-stream''), read_fault = None,
          seek_fault = None, rename_fault = None,
          setupXTDriver =
            (\<lambda>arguments. Inr \<lparr>ClearImages = Some (OSError ''clear failed''),
                                 PushImage = (\<lambda>path. None)\<rparr>),
          download = (\<lambda>url. Inl (OSError ''no network''))\<rparr>"
        "[''imagePath'' \<mapsto> String ''/sdcard/a.png'', ''clearBefore'' \<mapsto> Bool True]"
        "\<lparr>ClearImages = Some (OSError ''clear failed''), PushImage = (\<lambda>path. None)\<rparr>"
        "\<lparr>files = Map.empty, calls = []\<rparr>" "''/sdcard/a.png''" False
        "\<lparr>files = Map.empty, calls = [Call_setupXTDriver]\<rparr>"]
  by (simp add: handler_eval)

subsection \<open>The reverse mapping of \<^verbatim>\<open>push_image\<close>\<close>

lemma step_string:
  "(case assert_string v of (s, ok) \<Rightarrow> if ok \<and> s \<noteq> '''' then a(k \<mapsto> String s) else a) =
     a ++ Map.empty(k := recognised_string v)"
  by (cases v) (auto simp: recognised_string_def map_add_def)

lemma step_bool:
  "(case assert_bool v of (b, ok) \<Rightarrow> if ok then a(k \<mapsto> Bool b) else a) =
     a ++ Map.empty(k := recognised_bool v)"
  by (cases v) (auto simp: recognised_bool_def map_add_def)

lemma recognised_other:
  "recognised_string Nil = None" "recognised_string (Bool b) = None"
  "recognised_string (Float64 n) = None" "recognised_string (Map m) = None"
  "recognised_bool Nil = None" "recognised_bool (String s) = None"
  "recognised_bool (Float64 n) = None" "recognised_bool (Map m) = None"
  "map_index Map.empty k = Nil"
  by (simp_all add: recognised_string_def recognised_bool_def map_index_def)

lemma convert_arguments_closed:
  "ToolPushImage_ConvertActionToCallToolRequest action =
     (\<lparr>Name = ''push_image'',
       Arguments =
         Map.empty(''imageUrl'' := recognised_string (Params action)) ++
         Map.empty(''imageUrl'' :=
           recognised_string (map_index (nested_mapping action) ''imageUrl'')) ++
         Map.empty(''imagePath'' :=
           recognised_string (map_index (nested_mapping action) ''imagePath'')) ++
         Map.empty(''cleanup'' :=
           recognised_bool (map_index (nested_mapping action) ''cleanup'')) ++
         Map.empty(''clearBefore'' :=
           recognised_bool (map_index (nested_mapping action) ''clearBefore'')) ++
         Map.empty(''imageUrl'' :=
           recognised_string (map_index (Custom (ActionOptions action)) ''imageUrl'')) ++
         Map.empty(''imagePath'' :=
           recognised_string (map_index (Custom (ActionOptions action)) ''imagePath'')) ++
         Map.empty(''cleanup'' :=
           recognised_bool (map_index (Custom (ActionOptions action)) ''cleanup'')) ++
         Map.empty(''clearBefore'' :=
           recognised_bool (map_index (Custom (ActionOptions action)) ''clearBefore''))\<rparr>,
      None)"
  unfolding ToolPushImage_ConvertActionToCallToolRequest_def step_string step_bool
  by (cases "Params action")
     (simp_all add: BuildMCPCallToolRequest_def ACTION_PushImage_def nested_mapping_def
        recognised_other Let_def)

lemma first_recognised_as_case:
  "first_recognised [a] = a"
  "first_recognised [a, b] = (case a of None \<Rightarrow> b | Some x \<Rightarrow> Some x)"
  "first_recognised [a, b, c] =
     (case a of None \<Rightarrow> (case b of None \<Rightarrow> c | Some x \<Rightarrow> Some x) | Some x \<Rightarrow> Some x)"
  by (cases a; cases b; cases c; simp)+

lemma convert_arguments:
  "Arguments (fst (ToolPushImage_ConvertActionToCallToolRequest action)) key =
     precedence_arguments action key"
proof -
  consider "key = ''imageUrl''" | "key = ''imagePath''" | "key = ''cleanup''"
    | "key = ''clearBefore''"
    | "key \<noteq> ''imageUrl''" "key \<noteq> ''imagePath''" "key \<noteq> ''cleanup''" "key \<noteq> ''clearBefore''"
    by blast
  then show ?thesis
    by cases
      (simp_all add: convert_arguments_closed precedence_arguments_def map_add_def
          first_recognised_as_case Let_def split: option.split)
qed

text \<open>
  Claim C3 as stated, at an action whose custom options give the empty string for
  \<^verbatim>\<open>imageUrl\<close> and a string for \<^verbatim>\<open>cleanup\<close>, against a parameter mapping with a URL and a
  boolean \<^verbatim>\<open>cleanup\<close>: the arguments hold the values of the parameter mapping, not the
  custom ones.
\<close>

theorem C3_unrecognised_custom_override_loses:
  "Arguments (fst (ToolPushImage_ConvertActionToCallToolRequest
     \<lparr>Params = Map [''imageUrl'' \<mapsto> String ''http://host/old.png'',
                     ''cleanup'' \<mapsto> Bool False],
      ActionOptions = \<lparr>Custom = [''imageUrl'' \<mapsto> String '''',
                                 ''cleanup'' \<mapsto> String ''true'']\<rparr>\<rparr>)) ''imageUrl'' =
     Some (String ''http://host/old.png'') \<and>
   Arguments (fst (ToolPushImage_ConvertActionToCallToolRequest
     \<lparr>Params = Map [''imageUrl'' \<mapsto> String ''http://host/old.png'',
                     ''cleanup'' \<mapsto> Bool False],
      ActionOptions = \<lparr>Custom = [''imageUrl'' \<mapsto> String '''',
                                 ''cleanup'' \<mapsto> String ''true'']\<rparr>\<rparr>)) ''cleanup'' =
     Some (Bool False)"
  by (simp add: convert_arguments precedence_arguments_def nested_mapping_def map_index_def
      recognised_string_def recognised_bool_def)

text \<open>
  Claim C3, amended. The request built by the reverse mapping of \<^verbatim>\<open>push_image\<close> is named
  \<^verbatim>\<open>push_image\<close> and its arguments are those of the spec's precedence, custom options
  before parameter mapping before bare string, where only a non-empty string counts for
  \<^verbatim>\<open>imageUrl\<close> and \<^verbatim>\<open>imagePath\<close> and only a boolean for \<^verbatim>\<open>cleanup\<close> and \<^verbatim>\<open>clearBefore\<close>,
  fields of all sources being merged. In particular a custom option that is a non-empty
  string (for the two string fields) or a boolean (for the two flags) is the value of its
  field in the arguments, whatever the parameters say.
\<close>

theorem C3_recognised_custom_overrides_win:
  "ToolPushImage_ConvertActionToCallToolRequest action =
     (\<lparr>Name = ''push_image'', Arguments = precedence_arguments action\<rparr>, None) \<and>
   (\<forall>s. s \<noteq> '''' \<and> Custom (ActionOptions action) ''imageUrl'' = Some (String s) \<longrightarrow>
        Arguments (fst (ToolPushImage_ConvertActionToCallToolRequest action)) ''imageUrl'' =
          Some (String s)) \<and>
   (\<forall>s. s \<noteq> '''' \<and> Custom (ActionOptions action) ''imagePath'' = Some (String s) \<longrightarrow>
        Arguments (fst (ToolPushImage_ConvertActionToCallToolRequest action)) ''imagePath'' =
          Some (String s)) \<and>
   (\<forall>b. Custom (ActionOptions action) ''cleanup'' = Some (Bool b) \<longrightarrow>
        Arguments (fst (ToolPushImage_ConvertActionToCallToolRequest action)) ''cleanup'' =
          Some (Bool b)) \<and>
   (\<forall>b. Custom (ActionOptions action) ''clearBefore'' = Some (Bool b) \<longrightarrow>
        Arguments (fst (ToolPushImage_ConvertActionToCallToolRequest action)) ''clearBefore'' =
          Some (Bool b))"
proof -
  have "Arguments (fst (ToolPushImage_ConvertActionToCallToolRequest action)) =
          precedence_arguments action"
    by (rule ext) (rule convert_arguments)
  moreover have "Name (fst (ToolPushImage_ConvertActionToCallToolRequest action)) = ''push_image''"
    and "snd (ToolPushImage_ConvertActionToCallToolRequest action) = None"
    by (simp_all add: convert_arguments_closed)
  ultimately have eq: "ToolPushImage_ConvertActionToCallToolRequest action =
     (\<lparr>Name = ''push_image'', Arguments = precedence_arguments action\<rparr>, None)"
    by (cases "ToolPushImage_ConvertActionToCallToolRequest action") auto
  show ?thesis
    by (simp add: eq)
       (simp add: precedence_arguments_def map_index_def recognised_string_def
          recognised_bool_def)
qed

theorem C3_recognised_custom_overrides_win_witness:
  "ToolPushImage_ConvertActionToCallToolRequest
     \<lparr>Params = Map [''imageUrl'' \<mapsto> String ''http://host/old.png'',
                     ''imagePath'' \<mapsto> String ''/tmp/a.png'',
                     ''cleanup'' \<mapsto> Bool False],
      ActionOptions = \<lparr>Custom = [''imageUrl'' \<mapsto> String ''http://host/new.png'',
                                 ''cleanup'' \<mapsto> Bool True]\<rparr>\<rparr> =
   (\<lparr>Name = ''push_image'',
      Arguments = [''imageUrl'' \<mapsto> String ''http://host/new.png'',
                   ''imagePath'' \<mapsto> String ''/tmp/a.png'',
                   ''cleanup'' \<mapsto> Bool True]\<rparr>, None)"
proof -
  have "precedence_arguments
     \<lparr>Params = Map [''imageUrl'' \<mapsto> String ''http://host/old.png'',
                     ''imagePath'' \<mapsto> String ''/tmp/a.png'',
                     ''cleanup'' \<mapsto> Bool False],
      ActionOptions = \<lparr>Custom = [''imageUrl'' \<mapsto> String ''http://host/new.png'',
                                 ''cleanup'' \<mapsto> Bool True]\<rparr>\<rparr> =
     [''imageUrl'' \<mapsto> String ''http://host/new.png'',
      ''imagePath'' \<mapsto> String ''/tmp/a.png'',
      ''cleanup'' \<mapsto> Bool True]"
    by (rule ext)
       (simp add: precedence_arguments_def nested_mapping_def map_index_def
          recognised_string_def recognised_bool_def)
  then show ?thesis
    using C3_recognised_custom_overrides_win
      [of "\<lparr>Params = Map [''imageUrl'' \<mapsto> String ''http://host/old.png'',
                     ''imagePath'' \<mapsto> String ''/tmp/a.png'',
                     ''cleanup'' \<mapsto> Bool False],
      ActionOptions = \<lparr>Custom = [''imageUrl'' \<mapsto> String ''http://host/new.png'',
                                 ''cleanup'' \<mapsto> Bool True]\<rparr>\<rparr>"]
    by simp
qed

subsection \<open>\<^verbatim>\<open>list_available_devices\<close>\<close>

lemma android_serials_length:
  "length (android_serials devices acc) = length acc + length devices"
  by (induction devices arbitrary: acc) auto

lemma ios_serials_length:
  "length acc \<le> length (ios_serials env devs acc) \<and>
   length (ios_serials env devs acc) \<le> length acc + length devs"
proof (induction devs arbitrary: acc)
  case Nil
  then show ?case by simp
next
  case (Cons dev devs)
  show ?case
    using Cons.IH[of acc] Cons.IH[of "acc @ [SerialNumber (Properties (projr (NewIOSDevice env (SerialNumber (Entry_Properties dev)))))]"]
    by (auto simp: Let_def split: sum.splits option.splits)
qed

text \<open>
  A run of the handler: two Android devices, and two iOS devices of which the second
  does not pair.
\<close>

lemma list_available_devices_example:
  "ToolListAvailableDevices_Implement
     \<lparr>gadb_NewClient =
        Inr \<lparr>Client_DeviceList = Inr [\<lparr>Serial = ''emulator-5554''\<rparr>, \<lparr>Serial = ''R58M''\<rparr>]\<rparr>,
      ios_ListDevices =
        Inr [\<lparr>Entry_Properties = \<lparr>SerialNumber = ''00008030-A''\<rparr>\<rparr>,
             \<lparr>Entry_Properties = \<lparr>SerialNumber = ''00008030-B''\<rparr>\<rparr>],
      NewIOSDevice = (\<lambda>udid. Inr \<lparr>Properties = \<lparr>SerialNumber = udid\<rparr>\<rparr>),
      ios_Pair =
        (\<lambda>dev. if SerialNumber (Entry_Properties dev) = ''00008030-B''
               then Some (OSError ''pairing refused'') else None)\<rparr>
     Map.empty =
   Inr (SuccessResult ''Found 3 available devices (2 Android, 1 iOS)''
          \<lparr>AndroidDevices = [''emulator-5554'', ''R58M''], IosDevices = [''00008030-A''],
           TotalCount = 3, AndroidCount = 2, IosCount = 1\<rparr>)"
  by (simp add: ToolListAvailableDevices_Implement_def NewMCPSuccessResponse_def Let_def
      slice_index_def len_def fmt_d_def fmt_nat.simps)

text \<open>
  Claim C9. Whatever the enumeration, driver construction and pairing calls answer, the
  handler of \<^verbatim>\<open>list_available_devices\<close> returns no error and a success envelope, in
  whose payload \<^verbatim>\<open>AndroidCount\<close> is the length of \<^verbatim>\<open>AndroidDevices\<close>, \<^verbatim>\<open>IosCount\<close> the
  length of \<^verbatim>\<open>IosDevices\<close> and \<^verbatim>\<open>TotalCount\<close> their sum. Failures only shorten the
  lists: each has at most as many entries as the enumeration gave devices, and none when
  the enumeration failed.
\<close>

theorem C9_list_available_devices_counts:
  "\<exists>message returnData.
     ToolListAvailableDevices_Implement env arguments = Inr (SuccessResult message returnData) \<and>
     AndroidCount returnData = int (length (AndroidDevices returnData)) \<and>
     IosCount returnData = int (length (IosDevices returnData)) \<and>
     TotalCount returnData = AndroidCount returnData + IosCount returnData \<and>
     length (AndroidDevices returnData) \<le>
       (case gadb_NewClient env of Inl err \<Rightarrow> 0
        | Inr client \<Rightarrow> (case Client_DeviceList client of Inl err \<Rightarrow> 0
                          | Inr androidDevices \<Rightarrow> length androidDevices)) \<and>
     length (IosDevices returnData) \<le>
       (case ios_ListDevices env of Inl err \<Rightarrow> 0 | Inr iosDevices \<Rightarrow> length iosDevices)"
  using ios_serials_length[of "[]" env]
  by (auto simp: ToolListAvailableDevices_Implement_def NewMCPSuccessResponse_def Let_def
      slice_index_def len_def android_serials_length split: sum.splits)

end
